theory Spec2Isabelle
  imports Main
begin

section \<open>Values shared by the orchestrator and its boot units\<close>

text \<open>
  The embedding follows \<^verbatim>\<open>src/boot.js\<close>, \<^verbatim>\<open>src/lib/plugin.js\<close>,
  \<^verbatim>\<open>src/lib/promise.js\<close> and the two unnamed parts (the queue factory and the
  thenable helpers). JavaScript closures are defunctionalised: every closure the code
  creates is a constructor of a datatype, and the one interpreter of that datatype runs
  the closure's body. Calls into code the host supplies (plugin bodies, ready, after and
  close continuations) are recorded in the field \<open>calls\<close>; what the host does next
  (calling a completion callback, a timer expiring, a promise settling) is a separate
  entry point on the state. The functions that decorate a host object (\<^verbatim>\<open>wrap\<close> and
  the two \<^verbatim>\<open>encapsulate\<close> helpers), the timing tree and the debug output are outside
  the core and are left out; \<^verbatim>\<open>server.after\<close> is \<^verbatim>\<open>Avvio.prototype.after\<close>.
\<close>

type_synonym pid = nat
type_synonym server = nat
type_synonym prid = nat

section \<open>The level scheduler (fastq, concurrency one)\<close>

text \<open>
  Modelled from the spec: the Level Scheduler is the \<^verbatim>\<open>fastq\<close> package, a dependency
  that is not among the sources. Section 4.3 of the specification describes it: a FIFO
  queue with exactly one in-flight item, that can be paused and resumed, and that raises
  a drain signal when it is empty with nothing in flight. The operations return the
  signal they raise: \<open>Work x\<close> hands \<open>x\<close> to the worker, \<open>Drain\<close> calls the current
  drain handler. An item pushed on a queue that is paused or busy waits in it; pushed on
  an idle running queue it goes to the worker at once. \<open>q_release\<close> is what the queue
  does when a worker reports completion: the next item goes to the worker, or, with
  none left, the count of items in flight drops and reaching zero raises the drain
  signal. Resuming a paused queue takes the next item as a release does, so that
  resuming an empty idle queue raises the drain signal.
\<close>

record ('a, 'h) fastq =
  paused :: bool
  running :: int
  items :: "'a list"
  drain :: 'h

datatype 'a qsignal = Work 'a | Drain

definition q_length :: "('a, 'h) fastq \<Rightarrow> nat" where
  "q_length q = length (items q)"

definition q_pause :: "('a, 'h) fastq \<Rightarrow> ('a, 'h) fastq" where
  "q_pause q = q\<lparr>paused := True\<rparr>"

definition q_push :: "'a \<Rightarrow> ('a, 'h) fastq \<Rightarrow> ('a, 'h) fastq \<times> 'a qsignal option" where
  "q_push x q =
     (if running q \<ge> 1 \<or> paused q then (q\<lparr>items := items q @ [x]\<rparr>, None)
      else (q\<lparr>running := running q + 1\<rparr>, Some (Work x)))"

definition q_unshift :: "'a \<Rightarrow> ('a, 'h) fastq \<Rightarrow> ('a, 'h) fastq \<times> 'a qsignal option" where
  "q_unshift x q =
     (if running q \<ge> 1 \<or> paused q then (q\<lparr>items := x # items q\<rparr>, None)
      else (q\<lparr>running := running q + 1\<rparr>, Some (Work x)))"

definition q_release :: "('a, 'h) fastq \<Rightarrow> ('a, 'h) fastq \<times> 'a qsignal option" where
  "q_release q =
     (case items q of
        x # xs \<Rightarrow>
          if running q \<le> 1 then
            (if \<not> paused q then (q\<lparr>items := xs\<rparr>, Some (Work x))
             else (q\<lparr>running := running q - 1\<rparr>, None))
          else (q\<lparr>running := running q - 1\<rparr>,
                if running q - 1 = 0 then Some Drain else None)
      | [] \<Rightarrow> (q\<lparr>running := running q - 1\<rparr>,
                if running q - 1 = 0 then Some Drain else None))"

definition q_resume :: "('a, 'h) fastq \<Rightarrow> ('a, 'h) fastq \<times> 'a qsignal option" where
  "q_resume q =
     (if \<not> paused q then (q, None)
      else if items q = [] \<or> running q < 1
        then q_release (q\<lparr>paused := False, running := running q + 1\<rparr>)
        else (q\<lparr>paused := False\<rparr>, None))"

text \<open>\<^verbatim>\<open>createQueue\<close> of the queue factory: a paused queue with the given drain handler.\<close>

definition createQueue :: "'h \<Rightarrow> ('a, 'h) fastq" where
  "createQueue d = \<lparr>paused = True, running = 0, items = [], drain = d\<rparr>"

section \<open>Closures as data\<close>

text \<open>
  \<open>ret\<close> is what a host function hands back when it is called: nothing awaitable, a
  promise (\<^verbatim>\<open>typeof result.then === 'function'\<close>) or a thenable carrying the
  \<^verbatim>\<open>kAvvio\<close> tag. \<open>cont\<close> are the functions given to \<^verbatim>\<open>ready\<close>, \<^verbatim>\<open>after\<close>,
  \<^verbatim>\<open>close\<close> and \<^verbatim>\<open>onClose\<close>: a host function with its declared parameter count
  (\<^verbatim>\<open>func.length\<close>), or one of the closures the code itself builds.
\<close>

datatype ret = RetNone | RetThenable | RetAvvio

text \<open>Functions of the close queue: a host function, or the function \<^verbatim>\<open>close()\<close>
  builds around its promise when it is called without one.\<close>

datatype closefn = UserClose nat nat ret | ClosePromiseFn prid

text \<open>The variable \<^verbatim>\<open>relativeContext\<close> that \<^verbatim>\<open>readyPromiseCB\<close> closes over: not yet
  initialised (its \<^verbatim>\<open>const\<close> declaration comes after the push and the start), or holding
  the server of the innermost open unit, which may be undefined.\<close>

datatype rctx = Uninit | Ctx "server option"

datatype cont =
    UserCont nat nat ret
  | CloseReady closefn
  | ReadyPromiseCB prid rctx
  | LoadedSoFarCb pid

fun closefn_length :: "closefn \<Rightarrow> nat" where
  "closefn_length (UserClose i n r) = n"
| "closefn_length (ClosePromiseFn p) = 1"

fun cont_length :: "cont \<Rightarrow> nat" where
  "cont_length (UserCont i n r) = n"
| "cont_length (CloseReady f) = 0"
| "cont_length (ReadyPromiseCB p c) = 3"
| "cont_length (LoadedSoFarCb p) = 2"

text \<open>The error classes of \<^verbatim>\<open>lib/errors\<close> (not among the sources) are constructors;
  \<open>AVV_ERR_READY_TIMEOUT fn\<close> carries the function the code tags the error with
  (\<^verbatim>\<open>err.fn = func\<close>), which also determines the name in its message.
  \<open>PlainError\<close> is \<^verbatim>\<open>new Error(plugin.name, current.name)\<close>; \<open>TypeError\<close> is what
  JavaScript raises on a property read of \<^verbatim>\<open>undefined\<close> or \<^verbatim>\<open>null\<close> (and on a call of
  \<^verbatim>\<open>process.nextTick\<close> with no function); \<open>ReferenceError\<close> is the read of a
  \<^verbatim>\<open>const\<close> before its initialisation.\<close>

datatype fnref = PluginFn pid | ContFn cont

datatype err =
    UserError nat
  | AVV_ERR_READY_TIMEOUT fnref
  | AVV_ERR_ROOT_PLG_BOOTED
  | AVV_ERR_PLUGIN_NOT_VALID
  | AVV_ERR_CALLBACK_NOT_FN
  | PlainError string
  | TypeError
  | ReferenceError

text \<open>The function of a boot unit: \<^verbatim>\<open>root.bind(this)\<close>, \<^verbatim>\<open>_after.bind(this)\<close> (which
  captures the continuation), a host function, a promise of one (the case
  \<^verbatim>\<open>typeof plugin.func.then === 'function'\<close> of \<^verbatim>\<open>loadPlugin\<close>), or a value that
  \<^verbatim>\<open>validatePluginFunction\<close> refuses.\<close>

datatype pfunc = RootFn | AfterFn cont | UserFn nat | ThenableFn nat | NotAPlugin

text \<open>Completion callbacks: \<^verbatim>\<open>done\<close> of \<^verbatim>\<open>Plugin.exec\<close>, the arrow function
  \<^verbatim>\<open>loadPlugin\<close> gives to \<^verbatim>\<open>exec\<close> (it calls \<^verbatim>\<open>finish\<close>), the queue's completion for an
  item of \<^verbatim>\<open>_readyQ\<close> or \<^verbatim>\<open>_closeQ\<close> (the flag says that \<^verbatim>\<open>onClose\<close> pushed the item,
  with its callback that stores an error), and \<^verbatim>\<open>timeoutCallback\<close> of \<^verbatim>\<open>setupTimeout\<close>
  bound to its timer.\<close>

datatype cb = ExecDone pid | ExecCallback pid | ReadyWorked | CloseWorked bool | TimeoutCallback nat cb

datatype task =
    T_callback cb "err option"
  | T_loadPlugin pid
  | T_check pid
  | T_wrap pid
  | T_start
  | T_closeQ_resume
  | T_rootQ_resume

text \<open>A timer variable: never set, armed, cleared by \<^verbatim>\<open>clearTimeout\<close> (the variable still
  holds the timer object) or set to \<^verbatim>\<open>null\<close> by its own expiry.\<close>

datatype timer = Unset | Armed | Cleared | Null

datatype pstate = Pending | Resolved | Rejected err

text \<open>Drain handlers: \<^verbatim>\<open>noop\<close>, or the closure installed by \<^verbatim>\<open>check\<close> (a unit's
  queue), by the constructor for \<^verbatim>\<open>_readyQ\<close>, and by the constructor for \<^verbatim>\<open>_closeQ\<close>.\<close>

datatype pdrain = PNoop | FinishDrain
datatype rdrain = RNoop | ReadyDrain
datatype cdrain = CNoop | CloseDrain

text \<open>What the host observes: its functions being called with their arguments, the
  events emitted, and the exceptions raised (\<open>Thrown\<close>: the exception ends the call
  chain that raised it; inside the executor of a promise it rejects the promise).\<close>

datatype arg = AErr "err option" | ACtx server

datatype call =
    Body pid "server option"
  | ContCall cont "arg list" "cb option"
  | CloseCall closefn "arg list" "cb option"
  | Emit string
  | Thrown err

section \<open>State\<close>

record plugin =
  started :: bool
  func :: pfunc
  onStartSetup :: nat
  parentq :: "pid option"
  timeout :: int
  name :: string
  isAfter :: bool
  q :: "(pid, pdrain) fastq"
  p_error :: "err option"
  loaded :: bool
  p_promise :: "prid option"
  p_server :: "server option"
  completed :: bool
  p_timer :: timer

record avvio =
  a_timeout :: int
  a_instance :: server
  current :: "pid list"
  doStart :: "cb option"
  a_error :: "err option"
  lastUsed :: "pid option"
  a_started :: bool
  booted :: bool
  readyQ :: "(cont, rdrain) fastq"
  closeQ :: "(closefn \<times> bool, cdrain) fastq"
  tagged :: "closefn list"
  root :: "pid option"
  autostart :: bool
  override :: "server \<Rightarrow> pid \<Rightarrow> err + server"
  preReady :: "err option"
  plugins :: "pid \<Rightarrow> plugin"
  next_pid :: pid
  promises :: "prid \<Rightarrow> pstate"
  next_prid :: prid
  timers :: "nat \<Rightarrow> timer \<times> cont \<times> cb"
  next_timer :: nat
  ticks :: "task list"
  micro :: "task list"
  in_micro :: bool
  calls :: "call list"

text \<open>\<open>parentq\<close> is the queue whose completion callback \<^verbatim>\<open>loadPlugin\<close> received for this
  unit (\<open>None\<close> for the root, whose callback is the one of the constructor);
  \<open>completed\<close> and \<open>p_timer\<close> are the variables of the closure \<^verbatim>\<open>exec\<close> creates;
  \<open>onStartSetup\<close> counts the \<^verbatim>\<open>setup\<close> listeners \<^verbatim>\<open>loadedSoFar\<close> attached to the
  unit's start event. \<open>tagged\<close> lists the functions that carry the
  \<^verbatim>\<open>isOnCloseHandler\<close> mark; an item of \<open>closeQ\<close> is a function with the flag
  "pushed by \<^verbatim>\<open>onClose\<close>" (then the queue holds a callback for it). \<open>timers\<close> are the
  timers of \<^verbatim>\<open>setupTimeout\<close>, each with the function and callback its closure
  captured. \<open>override\<close> is the replaceable method \<^verbatim>\<open>Avvio.prototype.override\<close>;
  \<open>preReady\<close> is what a listener of the event of that name throws, if anything.\<close>

definition nextTick :: "task \<Rightarrow> avvio \<Rightarrow> avvio" where
  "nextTick t s = s\<lparr>ticks := ticks s @ [t]\<rparr>"

definition queueMicrotask :: "task \<Rightarrow> avvio \<Rightarrow> avvio" where
  "queueMicrotask t s = s\<lparr>micro := micro s @ [t]\<rparr>"

definition record_call :: "call \<Rightarrow> avvio \<Rightarrow> avvio" where
  "record_call c s = s\<lparr>calls := calls s @ [c]\<rparr>"

definition upd_plugin :: "pid \<Rightarrow> (plugin \<Rightarrow> plugin) \<Rightarrow> avvio \<Rightarrow> avvio" where
  "upd_plugin i f s = s\<lparr>plugins := (plugins s)(i := f (plugins s i))\<rparr>"

text \<open>\<^verbatim>\<open>createPromise\<close> of \<^verbatim>\<open>src/lib/promise.js\<close>, with the settle-once rule of promises.\<close>

definition createPromise :: "avvio \<Rightarrow> prid \<times> avvio" where
  "createPromise s =
     (next_prid s, s\<lparr>promises := (promises s)(next_prid s := Pending), next_prid := Suc (next_prid s)\<rparr>)"

definition settle :: "prid \<Rightarrow> err option \<Rightarrow> avvio \<Rightarrow> avvio" where
  "settle p e s =
     (if promises s p = Pending
      then s\<lparr>promises := (promises s)(p := (case e of None \<Rightarrow> Resolved | Some x \<Rightarrow> Rejected x))\<rparr>
      else s)"

section \<open>Calling conventions (\<^verbatim>\<open>src/boot.js\<close>, the thenable helpers)\<close>

text \<open>
  \<open>apply_closefn\<close> and \<open>apply_cont\<close> call a function with the given arguments: a host
  function is recorded in \<open>calls\<close> and hands back the kind of value it was declared
  with; a closure of the code runs its body. The body of \<^verbatim>\<open>close()\<close>'s continuation
  pushes onto the close queue, so the worker of that queue comes first.
\<close>

fun apply_closefn :: "closefn \<Rightarrow> arg list \<Rightarrow> cb option \<Rightarrow> avvio \<Rightarrow> ret \<times> avvio" where
  "apply_closefn (UserClose i n r) as c s = (r, record_call (CloseCall (UserClose i n r) as c) s)"
| "apply_closefn (ClosePromiseFn p) as c s =
     (RetNone, (case as of AErr e # _ \<Rightarrow> settle p e s | _ \<Rightarrow> settle p (Some TypeError) s))"

definition closeWithCallbackOrNextTick :: "closefn \<Rightarrow> cb \<Rightarrow> avvio \<Rightarrow> avvio" where
  "closeWithCallbackOrNextTick f callback s =
     (let context = a_instance s;
          isOnCloseHandler = (f \<in> set (tagged s));
          n = closefn_length f
      in if n = 0 \<or> n = 1 then
           (case apply_closefn f (if isOnCloseHandler then [ACtx context] else [AErr (a_error s)]) None s of
              (RetNone, s') \<Rightarrow> nextTick (T_callback callback None) s'
            | (_, s') \<Rightarrow> s')
         else if n = 2 then
           snd (apply_closefn f
                  (if isOnCloseHandler then [ACtx context] else [AErr (a_error s)]) (Some callback) s)
         else
           snd (apply_closefn f
                  (if isOnCloseHandler then [ACtx context] else [AErr (a_error s), ACtx context])
                  (Some callback) s))"

text \<open>A promise the host returned settles later: \<open>close_promise_settled\<close> is the pair of
  handlers \<^verbatim>\<open>closeWithCallbackOrNextTick\<close> attached to it (like the pairs of
  \<^verbatim>\<open>executeWithThenable\<close> and \<^verbatim>\<open>exec\<close> below, it schedules the callback).\<close>

definition close_promise_settled :: "cb \<Rightarrow> err option \<Rightarrow> avvio \<Rightarrow> avvio" where
  "close_promise_settled callback e s = nextTick (T_callback callback e) s"

definition closeQ_signal :: "(closefn \<times> bool) qsignal option \<Rightarrow> avvio \<Rightarrow> avvio" where
  "closeQ_signal sig s =
     (case sig of
        None \<Rightarrow> s
      | Some (Work (f, b)) \<Rightarrow> closeWithCallbackOrNextTick f (CloseWorked b) s
      | Some Drain \<Rightarrow>
          (case drain (closeQ s) of
             CloseDrain \<Rightarrow> (record_call (Emit ''close'') s)\<lparr>readyQ := (readyQ s)\<lparr>drain := RNoop\<rparr>\<rparr>
           | CNoop \<Rightarrow> s))"

definition closeQ_push :: "closefn \<times> bool \<Rightarrow> avvio \<Rightarrow> avvio" where
  "closeQ_push x s = (case q_push x (closeQ s) of (q', sig) \<Rightarrow> closeQ_signal sig (s\<lparr>closeQ := q'\<rparr>))"

definition closeQ_unshift :: "closefn \<times> bool \<Rightarrow> avvio \<Rightarrow> avvio" where
  "closeQ_unshift x s = (case q_unshift x (closeQ s) of (q', sig) \<Rightarrow> closeQ_signal sig (s\<lparr>closeQ := q'\<rparr>))"

definition closeQ_resume :: "avvio \<Rightarrow> avvio" where
  "closeQ_resume s = (case q_resume (closeQ s) of (q', sig) \<Rightarrow> closeQ_signal sig (s\<lparr>closeQ := q'\<rparr>))"

definition closeQ_release :: "avvio \<Rightarrow> avvio" where
  "closeQ_release s = (case q_release (closeQ s) of (q', sig) \<Rightarrow> closeQ_signal sig (s\<lparr>closeQ := q'\<rparr>))"

text \<open>The body of the function \<^verbatim>\<open>loadedSoFar\<close> registers through \<^verbatim>\<open>after\<close>
  (\<^verbatim>\<open>src/lib/plugin.js\<close>, lines 136 to 150). A missing \<^verbatim>\<open>_promise\<close> makes the
  property read fail before the tick is scheduled.\<close>

definition loadedSoFar_cb :: "pid \<Rightarrow> err option \<Rightarrow> cb option \<Rightarrow> avvio \<Rightarrow> avvio" where
  "loadedSoFar_cb i e c s =
     (let s1 = upd_plugin i (\<lambda>p. p\<lparr>p_error := e, q := q_pause (q p)\<rparr>) s
      in case p_promise (plugins s1 i) of
           None \<Rightarrow> record_call (Thrown TypeError) s1
         | Some pr \<Rightarrow>
             (let s2 = upd_plugin i (\<lambda>p. p\<lparr>p_promise := None\<rparr>) (settle pr e s1)
              in case c of None \<Rightarrow> record_call (Thrown TypeError) s2
                 | Some k \<Rightarrow> nextTick (T_callback k e) s2))"

fun apply_cont :: "cont \<Rightarrow> arg list \<Rightarrow> cb option \<Rightarrow> avvio \<Rightarrow> ret \<times> avvio" where
  "apply_cont (UserCont i n r) as c s = (r, record_call (ContCall (UserCont i n r) as c) s)"
| "apply_cont (CloseReady f) as c s =
     (RetNone, nextTick T_closeQ_resume (closeQ_push (f, False) (s\<lparr>a_error := None\<rparr>)))"
| "apply_cont (ReadyPromiseCB p x) as c s =
     (RetNone,
      (case as of
         AErr (Some e) # _ \<Rightarrow>
           (let s1 = settle p (Some e) s
            in case c of None \<Rightarrow> record_call (Thrown TypeError) s1
               | Some k \<Rightarrow> nextTick (T_callback k None) s1)
       | _ \<Rightarrow>
           (case x of
              Uninit \<Rightarrow> record_call (Thrown ReferenceError) s
            | Ctx v \<Rightarrow>
                (let s1 = settle p None s
                 in case c of None \<Rightarrow> record_call (Thrown TypeError) s1
                    | Some k \<Rightarrow> nextTick (T_callback k None) s1))))"
| "apply_cont (LoadedSoFarCb i) as c s =
     (RetNone, loadedSoFar_cb i (case as of AErr e # _ \<Rightarrow> e | _ \<Rightarrow> None) c s)"

text \<open>\<^verbatim>\<open>executeWithThenable\<close>: a thenable that does not carry \<^verbatim>\<open>kAvvio\<close> completes the
  callback when it settles (\<open>thenable_settled\<close>); anything else completes it on the next
  tick.\<close>

definition executeWithThenable :: "cont \<Rightarrow> arg list \<Rightarrow> cb \<Rightarrow> avvio \<Rightarrow> avvio" where
  "executeWithThenable f as callback s =
     (case apply_cont f as None s of
        (RetThenable, s') \<Rightarrow> s'
      | (_, s') \<Rightarrow> nextTick (T_callback callback None) s')"

definition thenable_settled :: "cb \<Rightarrow> err option \<Rightarrow> avvio \<Rightarrow> avvio" where
  "thenable_settled callback e s = nextTick (T_callback callback e) s"

definition setupTimeout :: "cont \<Rightarrow> err option \<Rightarrow> server \<Rightarrow> cb \<Rightarrow> avvio \<Rightarrow> avvio" where
  "setupTimeout f rootError context callback s =
     (let t = next_timer s;
          s1 = s\<lparr>timers := (timers s)(t := (Armed, f, callback)), next_timer := Suc t\<rparr>
      in if cont_length f = 2
         then snd (apply_cont f [AErr rootError] (Some (TimeoutCallback t callback)) s1)
         else snd (apply_cont f [AErr rootError, ACtx context] (Some (TimeoutCallback t callback)) s1))"

definition callWithCallbackOrNextTick :: "cont \<Rightarrow> cb \<Rightarrow> avvio \<Rightarrow> avvio" where
  "callWithCallbackOrNextTick f callback s =
     (let context = a_instance s;
          error = a_error s;
          s1 = s\<lparr>a_error := None\<rparr>
      in if cont_length f = 0 then executeWithThenable f [] callback (s1\<lparr>a_error := error\<rparr>)
         else if cont_length f = 1 then executeWithThenable f [AErr error] callback s1
         else if a_timeout s = 0 then
           (if cont_length f = 2 then snd (apply_cont f [AErr error] (Some callback) s1)
            else snd (apply_cont f [AErr error, ACtx context] (Some callback) s1))
         else setupTimeout f error context callback s1)"

section \<open>The ready queue\<close>

definition readyQ_signal :: "cont qsignal option \<Rightarrow> avvio \<Rightarrow> avvio" where
  "readyQ_signal sig s =
     (case sig of
        None \<Rightarrow> s
      | Some (Work f) \<Rightarrow> callWithCallbackOrNextTick f ReadyWorked s
      | Some Drain \<Rightarrow>
          (case drain (readyQ s) of
             ReadyDrain \<Rightarrow> (record_call (Emit ''start'') s)\<lparr>readyQ := (readyQ s)\<lparr>drain := RNoop\<rparr>\<rparr>
           | RNoop \<Rightarrow> s))"

definition readyQ_push :: "cont \<Rightarrow> avvio \<Rightarrow> avvio" where
  "readyQ_push x s = (case q_push x (readyQ s) of (q', sig) \<Rightarrow> readyQ_signal sig (s\<lparr>readyQ := q'\<rparr>))"

definition readyQ_resume :: "avvio \<Rightarrow> avvio" where
  "readyQ_resume s = (case q_resume (readyQ s) of (q', sig) \<Rightarrow> readyQ_signal sig (s\<lparr>readyQ := q'\<rparr>))"

definition readyQ_release :: "avvio \<Rightarrow> avvio" where
  "readyQ_release s = (case q_release (readyQ s) of (q', sig) \<Rightarrow> readyQ_signal sig (s\<lparr>readyQ := q'\<rparr>))"

section \<open>Boot units (\<^verbatim>\<open>src/lib/plugin.js\<close>)\<close>

text \<open>The constructor: the children queue is created and paused at once. The name
  (\<^verbatim>\<open>getName\<close>) and the timeout (the orchestrator's unless given) are arguments.\<close>

definition Plugin :: "pfunc \<Rightarrow> string \<Rightarrow> bool \<Rightarrow> int \<Rightarrow> pid option \<Rightarrow> plugin" where
  "Plugin f nm after tmo pq =
     \<lparr>started = False, func = f, onStartSetup = 0, parentq = pq, timeout = tmo, name = nm,
      isAfter = after,
      q = q_pause \<lparr>paused = False, running = 0, items = [], drain = PNoop\<rparr>,
      p_error = None, loaded = False, p_promise = None, p_server = None,
      completed = False, p_timer = Unset\<rparr>"

text \<open>The worker of a unit's queue is \<^verbatim>\<open>loadPluginNextTick\<close>; the drain handler that
  \<^verbatim>\<open>check\<close> installs resets itself and defers a new \<^verbatim>\<open>check\<close>.\<close>

definition pluginQ_signal :: "pid \<Rightarrow> pid qsignal option \<Rightarrow> avvio \<Rightarrow> avvio" where
  "pluginQ_signal i sig s =
     (case sig of
        None \<Rightarrow> s
      | Some (Work c) \<Rightarrow> nextTick (T_loadPlugin c) s
      | Some Drain \<Rightarrow>
          (case drain (q (plugins s i)) of
             FinishDrain \<Rightarrow>
               queueMicrotask (T_check i) (upd_plugin i (\<lambda>p. p\<lparr>q := (q p)\<lparr>drain := PNoop\<rparr>\<rparr>) s)
           | PNoop \<Rightarrow> s))"

definition pluginQ_push :: "pid \<Rightarrow> pid \<Rightarrow> avvio \<Rightarrow> avvio" where
  "pluginQ_push i c s =
     (case q_push c (q (plugins s i)) of
        (q', sig) \<Rightarrow> pluginQ_signal i sig (upd_plugin i (\<lambda>p. p\<lparr>q := q'\<rparr>) s))"

definition pluginQ_resume :: "pid \<Rightarrow> avvio \<Rightarrow> avvio" where
  "pluginQ_resume i s =
     (case q_resume (q (plugins s i)) of
        (q', sig) \<Rightarrow> pluginQ_signal i sig (upd_plugin i (\<lambda>p. p\<lparr>q := q'\<rparr>) s))"

definition pluginQ_release :: "pid \<Rightarrow> avvio \<Rightarrow> avvio" where
  "pluginQ_release i s =
     (case q_release (q (plugins s i)) of
        (q', sig) \<Rightarrow> pluginQ_signal i sig (upd_plugin i (\<lambda>p. p\<lparr>q := q'\<rparr>) s))"

text \<open>The callback the constructor gives to \<^verbatim>\<open>loadPlugin\<close> for the root unit
  (\<^verbatim>\<open>src/boot.js\<close>, lines 171 to 189). A throw ends the call chain: it is recorded and
  nothing after it runs.\<close>

definition root_callback :: "err option \<Rightarrow> avvio \<Rightarrow> avvio" where
  "root_callback error s =
     (let s1 = record_call (Emit ''preReady'') s;
          error' = (case preReady s of
                      None \<Rightarrow> error
                    | Some pe \<Rightarrow> (case error of Some e \<Rightarrow> Some e
                                 | None \<Rightarrow> (case a_error s of Some e \<Rightarrow> Some e | None \<Rightarrow> Some pe)));
          s2 = (case preReady s of None \<Rightarrow> s1\<lparr>root := None\<rparr> | Some pe \<Rightarrow> s1)
      in case error' of
           Some e \<Rightarrow>
             (let s3 = s2\<lparr>a_error := Some e\<rparr>
              in if q_length (readyQ s3) = 0 then record_call (Thrown e) s3
                 else readyQ_resume s3)
         | None \<Rightarrow> readyQ_resume (s2\<lparr>booted := True\<rparr>))"

text \<open>The completion callback \<^verbatim>\<open>loadPlugin\<close> received for a unit: the root's, or the
  one of the parent's queue, which runs the callback \<^verbatim>\<open>_addPlugin\<close> gave to
  \<^verbatim>\<open>enqueue\<close> and then releases the queue.\<close>

definition plugin_worked :: "pid \<Rightarrow> err option \<Rightarrow> avvio \<Rightarrow> avvio" where
  "plugin_worked i e s =
     (case parentq (plugins s i) of
        None \<Rightarrow> root_callback e s
      | Some par \<Rightarrow>
          pluginQ_release par (case e of Some x \<Rightarrow> s\<lparr>a_error := Some x\<rparr> | None \<Rightarrow> s))"

text \<open>\<^verbatim>\<open>done\<close> inside \<^verbatim>\<open>finish\<close>, with the callback of \<^verbatim>\<open>loadPlugin\<close> that pops the
  stack of open units.\<close>

definition finish_done :: "pid \<Rightarrow> err option \<Rightarrow> avvio \<Rightarrow> avvio" where
  "finish_done i e s =
     (if loaded (plugins s i) then s
      else (let s1 = upd_plugin i (\<lambda>p. p\<lparr>loaded := True\<rparr>) s
            in plugin_worked i e (s1\<lparr>current := drop 1 (current s1)\<rparr>)))"

definition check :: "pid \<Rightarrow> avvio \<Rightarrow> avvio" where
  "check i s =
     (let p = plugins s i
      in if q_length (q p) = 0 \<and> running (q p) = 0 then
           (case p_promise p of
              Some pr \<Rightarrow>
                upd_plugin i (\<lambda>p. p\<lparr>p_promise := None\<rparr>) (queueMicrotask (T_wrap i) (settle pr None s))
            | None \<Rightarrow> finish_done i None s)
         else upd_plugin i (\<lambda>p. p\<lparr>q := (q p)\<lparr>drain := FinishDrain\<rparr>\<rparr>) s)"

definition finish :: "pid \<Rightarrow> err option \<Rightarrow> avvio \<Rightarrow> avvio" where
  "finish i e s =
     (case e of
        Some x \<Rightarrow>
          finish_done i e
            (case p_promise (plugins s i) of
               Some pr \<Rightarrow> upd_plugin i (\<lambda>p. p\<lparr>p_promise := None\<rparr>) (settle pr e s)
             | None \<Rightarrow> s)
      | None \<Rightarrow> pluginQ_resume i (queueMicrotask (T_check i) s))"

text \<open>The closure \<^verbatim>\<open>done\<close> of \<^verbatim>\<open>exec\<close>, and the expiry of the timer \<^verbatim>\<open>exec\<close> arms.\<close>

definition exec_done :: "pid \<Rightarrow> err option \<Rightarrow> avvio \<Rightarrow> avvio" where
  "exec_done i e s =
     (let p = plugins s i
      in if completed p then s
         else finish i e
                (upd_plugin i (\<lambda>p. p\<lparr>p_error := e, completed := True,
                    p_timer := (if p_timer p = Armed \<or> p_timer p = Cleared then Cleared else p_timer p)\<rparr>) s))"

definition exec_timer_expired :: "pid \<Rightarrow> avvio \<Rightarrow> avvio" where
  "exec_timer_expired i s =
     (if p_timer (plugins s i) = Armed
      then exec_done i (Some (AVV_ERR_READY_TIMEOUT (PluginFn i)))
             (upd_plugin i (\<lambda>p. p\<lparr>p_timer := Null\<rparr>) s)
      else s)"

section \<open>Registration (\<^verbatim>\<open>src/boot.js\<close>)\<close>

text \<open>\<^verbatim>\<open>Avvio.prototype.start\<close>: \<^verbatim>\<open>process.nextTick\<close> reads \<^verbatim>\<open>_doStart\<close> when it is
  called, and refuses a value that is not a function.\<close>

definition start :: "avvio \<Rightarrow> avvio" where
  "start s =
     (let s1 = s\<lparr>a_started := True\<rparr>
      in case doStart s1 of
           None \<Rightarrow> record_call (Thrown TypeError) s1
         | Some c \<Rightarrow> nextTick (T_callback c None) s1)"

text \<open>\<^verbatim>\<open>_addPlugin\<close>: a throw leaves the state as it was (the unit it may have built
  is unreachable), so the error alone is returned.\<close>

definition addPlugin :: "pfunc \<Rightarrow> string \<Rightarrow> bool \<Rightarrow> avvio \<Rightarrow> err + (pid \<times> avvio)" where
  "addPlugin f nm after s =
     (if f = NotAPlugin then Inl AVV_ERR_PLUGIN_NOT_VALID
      else if booted s then Inl AVV_ERR_ROOT_PLG_BOOTED
      else case current s of
             [] \<Rightarrow> Inl TypeError
           | cur # _ \<Rightarrow>
               if loaded (plugins s cur) then Inl (PlainError nm)
               else (let i = next_pid s;
                         s1 = s\<lparr>plugins := (plugins s)(i := Plugin f nm after (a_timeout s) (Some cur)),
                                next_pid := Suc i\<rparr>
                     in Inr (i, pluginQ_push cur i s1)))"

definition use :: "pfunc \<Rightarrow> string \<Rightarrow> avvio \<Rightarrow> err + avvio" where
  "use f nm s =
     (case addPlugin f nm False s of
        Inl e \<Rightarrow> Inl e
      | Inr (i, s') \<Rightarrow> Inr (s'\<lparr>lastUsed := Some i\<rparr>))"

text \<open>\<^verbatim>\<open>after(func)\<close> with a function; without one it is \<open>loadRegistered\<close> below.\<close>

definition after :: "cont \<Rightarrow> avvio \<Rightarrow> err + avvio" where
  "after f s =
     (case addPlugin (AfterFn f) ''bound _after'' True s of
        Inl e \<Rightarrow> Inl e
      | Inr (i, s') \<Rightarrow> Inr s')"

section \<open>Partial completion (\<^verbatim>\<open>loadedSoFar\<close>)\<close>

text \<open>What \<^verbatim>\<open>loadedSoFar\<close> returns: a promise made on the spot by
  \<^verbatim>\<open>Promise.resolve()\<close>, or the promise stored in \<^verbatim>\<open>_promise\<close>. A throw inside
  \<^verbatim>\<open>setup\<close> comes back with the state reached.\<close>

datatype awaitable = FreshResolved | Tracked prid

definition setup_loadedSoFar :: "pid \<Rightarrow> avvio \<Rightarrow> (err \<times> avvio) + avvio" where
  "setup_loadedSoFar i s =
     (case after (LoadedSoFarCb i) s of
        Inl e \<Rightarrow> Inl (e, s)
      | Inr s' \<Rightarrow> Inr (pluginQ_resume i s'))"

definition loadedSoFar :: "pid \<Rightarrow> avvio \<Rightarrow> (err \<times> avvio) + (awaitable \<times> avvio)" where
  "loadedSoFar i s =
     (if loaded (plugins s i) then Inr (FreshResolved, s)
      else case p_promise (plugins s i) of
             None \<Rightarrow>
               (case createPromise s of
                  (pr, s1) \<Rightarrow>
                    (let s2 = upd_plugin i (\<lambda>p. p\<lparr>p_promise := Some pr\<rparr>) s1
                     in if p_server (plugins s2 i) = None
                        then Inr (Tracked pr, upd_plugin i (\<lambda>p. p\<lparr>onStartSetup := Suc (onStartSetup p)\<rparr>) s2)
                        else (case setup_loadedSoFar i s2 of
                                Inl x \<Rightarrow> Inl x
                              | Inr s3 \<Rightarrow> Inr (Tracked pr, s3))))
           | Some pr \<Rightarrow> Inr (FreshResolved, s))"

definition loadRegistered :: "avvio \<Rightarrow> (err \<times> avvio) + (awaitable \<times> avvio)" where
  "loadRegistered s =
     (let s1 = (if \<not> a_started s \<and> \<not> booted s then nextTick T_rootQ_resume s else s)
      in case current s of
           [] \<Rightarrow> Inr (FreshResolved, s1)
         | i # _ \<Rightarrow> loadedSoFar i s1)"

fun run_setups :: "nat \<Rightarrow> pid \<Rightarrow> avvio \<Rightarrow> (err \<times> avvio) + avvio" where
  "run_setups 0 i s = Inr s"
| "run_setups (Suc n) i s =
     (case setup_loadedSoFar i s of Inl x \<Rightarrow> Inl x | Inr s' \<Rightarrow> run_setups n i s')"

section \<open>Execution of a unit\<close>

text \<open>
  \<^verbatim>\<open>Plugin.prototype.exec\<close>. The options are not modelled (no claim reads them). The
  start event runs the \<^verbatim>\<open>setup\<close> listeners of \<^verbatim>\<open>loadedSoFar\<close>; the listeners of the
  timing tree are outside the core. Calling the unit's function: \<^verbatim>\<open>root\<close> stores
  \<^verbatim>\<open>done\<close> and starts when \<^verbatim>\<open>autostart\<close> is set; \<^verbatim>\<open>_after\<close> hands its continuation
  to \<^verbatim>\<open>callWithCallbackOrNextTick\<close>; a host function is recorded, and what it does
  with \<^verbatim>\<open>done\<close> or with the promise it hands back comes later, through \<open>exec_done\<close>
  and \<open>body_promise_settled\<close>.
\<close>

definition call_func :: "pid \<Rightarrow> avvio \<Rightarrow> avvio" where
  "call_func i s =
     (case func (plugins s i) of
        RootFn \<Rightarrow> (let s1 = s\<lparr>doStart := Some (ExecDone i)\<rparr> in if autostart s1 then start s1 else s1)
      | AfterFn f \<Rightarrow> callWithCallbackOrNextTick f (ExecDone i) s
      | UserFn k \<Rightarrow> record_call (Body i (p_server (plugins s i))) s
      | ThenableFn k \<Rightarrow> record_call (Thrown TypeError) s
      | NotAPlugin \<Rightarrow> record_call (Thrown TypeError) s)"

definition exec :: "pid \<Rightarrow> server \<Rightarrow> avvio \<Rightarrow> avvio" where
  "exec i srv s =
     (let p = plugins s i
      in if a_error s \<noteq> None \<and> \<not> isAfter p then nextTick (T_callback (ExecCallback i) None) s
         else case (if \<not> isAfter p then override s srv i else Inr srv) of
                Inl e \<Rightarrow> finish i (Some e) s
              | Inr sv \<Rightarrow>
                  (let s1 = upd_plugin i (\<lambda>p. p\<lparr>p_server := Some sv,
                                p_timer := (if timeout p > 0 then Armed else Unset),
                                started := True\<rparr>) s
                   in case run_setups (onStartSetup p) i s1 of
                        Inl (e, s2) \<Rightarrow> record_call (Thrown e) s2
                      | Inr s2 \<Rightarrow> call_func i s2))"

definition body_promise_settled :: "pid \<Rightarrow> err option \<Rightarrow> avvio \<Rightarrow> avvio" where
  "body_promise_settled i e s = nextTick (T_callback (ExecDone i) e) s"

text \<open>\<^verbatim>\<open>loadPlugin\<close>. A unit whose function is still a promise waits for it:
  \<open>func_resolved\<close> and \<open>func_rejected\<close> are the two handlers.\<close>

definition loadPlugin :: "pid \<Rightarrow> avvio \<Rightarrow> avvio" where
  "loadPlugin i s =
     (case func (plugins s i) of
        ThenableFn k \<Rightarrow> s
      | _ \<Rightarrow>
          (let last = (case current s of [] \<Rightarrow> None | l # _ \<Rightarrow> p_server (plugins s l))
           in exec i (case last of Some sv \<Rightarrow> sv | None \<Rightarrow> a_instance s)
                (s\<lparr>current := i # current s\<rparr>)))"

definition func_resolved :: "pid \<Rightarrow> pfunc \<Rightarrow> avvio \<Rightarrow> avvio" where
  "func_resolved i f s = loadPlugin i (upd_plugin i (\<lambda>p. p\<lparr>func := f\<rparr>) s)"

definition func_rejected :: "pid \<Rightarrow> err \<Rightarrow> avvio \<Rightarrow> avvio" where
  "func_rejected i e s = plugin_worked i (Some e) s"

section \<open>Ready and close (\<^verbatim>\<open>src/boot.js\<close>)\<close>

definition ready :: "cont \<Rightarrow> avvio \<Rightarrow> avvio" where
  "ready f s = queueMicrotask T_start (readyQ_push f s)"

text \<open>
  \<^verbatim>\<open>ready()\<close> without a function. The executor pushes \<^verbatim>\<open>readyPromiseCB\<close>, starts, and
  only then initialises \<^verbatim>\<open>relativeContext\<close> from the innermost open unit. When the queue
  runs the pushed function at once, the function reads the variable before its
  initialisation; an exception inside the executor rejects the promise.
\<close>

definition ready_promise :: "avvio \<Rightarrow> prid \<times> avvio" where
  "ready_promise s =
     (case createPromise s of
        (pr, s1) \<Rightarrow>
          (let x = (case current s1 of [] \<Rightarrow> Uninit | c # _ \<Rightarrow> Ctx (p_server (plugins s1 c)));
               tail = (\<lambda>s'. if current s' = [] then settle pr (Some TypeError) s' else s')
           in case q_push (ReadyPromiseCB pr x) (readyQ s1) of
                (q', Some (Work f)) \<Rightarrow>
                  (let s2 = callWithCallbackOrNextTick (ReadyPromiseCB pr Uninit) ReadyWorked
                              (s1\<lparr>readyQ := q'\<rparr>)
                   in if a_error s1 = None then (pr, settle pr (Some ReferenceError) s2)
                      else (pr, tail (start s2)))
              | (q', _) \<Rightarrow> (pr, tail (start (s1\<lparr>readyQ := q'\<rparr>)))))"

definition onClose :: "closefn \<Rightarrow> avvio \<Rightarrow> avvio" where
  "onClose f s = closeQ_unshift (f, True) (s\<lparr>tagged := f # tagged s\<rparr>)"

definition close :: "closefn \<Rightarrow> avvio \<Rightarrow> avvio" where
  "close f s = ready (CloseReady f) s"

definition close_promise :: "avvio \<Rightarrow> prid \<times> avvio" where
  "close_promise s =
     (case createPromise s of (pr, s1) \<Rightarrow> (pr, ready (CloseReady (ClosePromiseFn pr)) s1))"

section \<open>Callbacks, timers and the event loop\<close>

fun run_cb :: "cb \<Rightarrow> err option \<Rightarrow> avvio \<Rightarrow> avvio" where
  "run_cb (ExecDone i) e s = exec_done i e s"
| "run_cb (ExecCallback i) e s = finish i e s"
| "run_cb ReadyWorked e s = readyQ_release s"
| "run_cb (CloseWorked b) e s =
     closeQ_release (if b then (case e of Some x \<Rightarrow> s\<lparr>a_error := Some x\<rparr> | None \<Rightarrow> s) else s)"
| "run_cb (TimeoutCallback t c) e s =
     (case timers s t of
        (tm, f, k) \<Rightarrow>
          if tm = Armed \<or> tm = Cleared
          then run_cb c e (s\<lparr>timers := (timers s)(t := (Cleared, f, k)), a_error := e\<rparr>)
          else s)"

text \<open>The expiry of a timer of \<^verbatim>\<open>setupTimeout\<close>; a cleared timer does not expire.\<close>

definition timer_expired :: "nat \<Rightarrow> avvio \<Rightarrow> avvio" where
  "timer_expired t s =
     (case timers s t of
        (tm, f, k) \<Rightarrow>
          if tm = Armed
          then run_cb k (Some (AVV_ERR_READY_TIMEOUT (ContFn f)))
                 (s\<lparr>timers := (timers s)(t := (Null, f, k)),
                    a_error := Some (AVV_ERR_READY_TIMEOUT (ContFn f))\<rparr>)
          else s)"

fun run_task :: "task \<Rightarrow> avvio \<Rightarrow> avvio" where
  "run_task (T_callback c e) s = run_cb c e s"
| "run_task (T_loadPlugin i) s = loadPlugin i s"
| "run_task (T_check i) s = check i s"
| "run_task (T_wrap i) s = queueMicrotask (T_check i) s"
| "run_task T_start s = start s"
| "run_task T_closeQ_resume s = closeQ_resume s"
| "run_task T_rootQ_resume s =
     (case root s of None \<Rightarrow> record_call (Thrown TypeError) s | Some r \<Rightarrow> pluginQ_resume r s)"

text \<open>One turn of the loop, in the order of Node.js: the next-tick queue is emptied, then
  the microtask queue is emptied (ticks scheduled meanwhile wait), and so on. \<open>None\<close>
  means both queues are empty. \<open>in_micro\<close> says that the loop is emptying the microtask
  queue; it keeps its value when the loop falls idle, as when the host then acts from the
  continuation of a promise.\<close>

definition turn :: "avvio \<Rightarrow> avvio option" where
  "turn s =
     (if in_micro s then
        (case micro s of
           m # ms \<Rightarrow> Some (run_task m (s\<lparr>micro := ms\<rparr>))
         | [] \<Rightarrow> (case ticks s of
                    t # ts \<Rightarrow> Some (run_task t (s\<lparr>ticks := ts, in_micro := False\<rparr>))
                  | [] \<Rightarrow> None))
      else
        (case ticks s of
           t # ts \<Rightarrow> Some (run_task t (s\<lparr>ticks := ts\<rparr>))
         | [] \<Rightarrow> (case micro s of
                    m # ms \<Rightarrow> Some (run_task m (s\<lparr>micro := ms, in_micro := True\<rparr>))
                  | [] \<Rightarrow> None)))"

fun turns :: "nat \<Rightarrow> avvio \<Rightarrow> avvio" where
  "turns 0 s = s"
| "turns (Suc n) s = (case turn s of None \<Rightarrow> s | Some s' \<Rightarrow> turns n s')"

section \<open>The constructor\<close>

text \<open>\<^verbatim>\<open>Avvio(instance, options, done)\<close>: the timeout, the instance, \<^verbatim>\<open>autostart\<close>, the
  \<^verbatim>\<open>override\<close> method and the behaviour of the \<^verbatim>\<open>preReady\<close> listeners are the
  arguments; a \<^verbatim>\<open>done\<close> listener of the start event is observed through
  \<open>Emit ''start''\<close>. The root unit has identifier 0 and timeout 0, and is loaded at once.\<close>

definition Avvio :: "int \<Rightarrow> server \<Rightarrow> bool \<Rightarrow> (server \<Rightarrow> pid \<Rightarrow> err + server) \<Rightarrow> err option \<Rightarrow> avvio" where
  "Avvio tmo inst auto ovr pre =
     loadPlugin 0
       \<lparr>a_timeout = tmo, a_instance = inst, current = [], doStart = None, a_error = None,
        lastUsed = None, a_started = False, booted = False,
        readyQ = createQueue ReadyDrain, closeQ = createQueue CloseDrain, tagged = [],
        root = Some 0, autostart = auto, override = ovr, preReady = pre,
        plugins = (\<lambda>i. Plugin NotAPlugin [] False 0 None)(0 := Plugin RootFn ''bound root'' False 0 None),
        next_pid = 1, promises = (\<lambda>i. Pending), next_prid = 0,
        timers = (\<lambda>i. (Unset, UserCont 0 0 RetNone, ReadyWorked)), next_timer = 0,
        ticks = [], micro = [], in_micro = False, calls = []\<rparr>"

section \<open>Everything that can happen\<close>

text \<open>
  The entry points of the system: a task of the loop being run, a call of the interface
  by the host, the host calling a completion callback it was given, a promise the host
  returned settling (which schedules the callback), a timer expiring, and the promise of
  a unit's function settling (its handlers exist only while the function is a promise).
  A registration that throws leaves the state unchanged.
\<close>

datatype action =
    Task task
  | Use pfunc string
  | After cont
  | LoadRegistered
  | Ready cont
  | ReadyPromise
  | Close closefn
  | ClosePromise
  | OnClose closefn
  | Start
  | Call cb "err option"
  | Settled cb "err option"
  | ExecTimer pid
  | Timer nat
  | FuncResolved pid pfunc
  | FuncRejected pid err

definition is_thenable :: "pfunc \<Rightarrow> bool" where
  "is_thenable f = (case f of ThenableFn k \<Rightarrow> True | _ \<Rightarrow> False)"

fun perform :: "action \<Rightarrow> avvio \<Rightarrow> avvio" where
  "perform (Task t) s = run_task t s"
| "perform (Use f nm) s = (case use f nm s of Inl e \<Rightarrow> s | Inr s' \<Rightarrow> s')"
| "perform (After f) s = (case after f s of Inl e \<Rightarrow> s | Inr s' \<Rightarrow> s')"
| "perform LoadRegistered s = (case loadRegistered s of Inl (e, s') \<Rightarrow> s' | Inr (a, s') \<Rightarrow> s')"
| "perform (Ready f) s = ready f s"
| "perform ReadyPromise s = snd (ready_promise s)"
| "perform (Close f) s = close f s"
| "perform ClosePromise s = snd (close_promise s)"
| "perform (OnClose f) s = onClose f s"
| "perform Start s = start s"
| "perform (Call c e) s = run_cb c e s"
| "perform (Settled c e) s = thenable_settled c e s"
| "perform (ExecTimer i) s = exec_timer_expired i s"
| "perform (Timer t) s = timer_expired t s"
| "perform (FuncResolved i f) s = (if is_thenable (func (plugins s i)) then func_resolved i f s else s)"
| "perform (FuncRejected i e) s = (if is_thenable (func (plugins s i)) then func_rejected i e s else s)"

fun performs :: "action list \<Rightarrow> avvio \<Rightarrow> avvio" where
  "performs [] s = s"
| "performs (a # as) s = performs as (perform a s)"

text \<open>The units whose children queue an entry point may resume: a completion callback
  called without error resumes the queue of its unit (through \<^verbatim>\<open>finish\<close>); loading a
  unit resumes its queue when a \<^verbatim>\<open>setup\<close> listener of \<^verbatim>\<open>loadedSoFar\<close> waits for its
  start; \<^verbatim>\<open>_loadRegistered\<close> resumes the queue of the innermost open unit (through
  \<^verbatim>\<open>loadedSoFar\<close>) and schedules the task that resumes the root's.\<close>

fun cb_resumes :: "cb \<Rightarrow> err option \<Rightarrow> pid set" where
  "cb_resumes (ExecDone i) e = (if e = None then {i} else {})"
| "cb_resumes (ExecCallback i) e = (if e = None then {i} else {})"
| "cb_resumes ReadyWorked e = {}"
| "cb_resumes (CloseWorked b) e = {}"
| "cb_resumes (TimeoutCallback t c) e = cb_resumes c e"

definition load_resumes :: "pid \<Rightarrow> avvio \<Rightarrow> pid set" where
  "load_resumes i s = (if onStartSetup (plugins s i) > 0 then {i} else {})"

definition task_resumes :: "task \<Rightarrow> avvio \<Rightarrow> pid set" where
  "task_resumes t s =
     (case t of
        T_callback c e \<Rightarrow> cb_resumes c e
      | T_loadPlugin i \<Rightarrow> load_resumes i s
      | T_rootQ_resume \<Rightarrow> (case root s of None \<Rightarrow> {} | Some r \<Rightarrow> {r})
      | _ \<Rightarrow> {})"

definition may_resume :: "action \<Rightarrow> avvio \<Rightarrow> pid set" where
  "may_resume a s =
     (case a of
        Task t \<Rightarrow> task_resumes t s
      | Call c e \<Rightarrow> cb_resumes c e
      | LoadRegistered \<Rightarrow> (case current s of [] \<Rightarrow> {} | i # cs \<Rightarrow> {i})
      | FuncResolved i f \<Rightarrow> load_resumes i s
      | _ \<Rightarrow> {})"

section \<open>Relations between states\<close>

text \<open>Two units that differ at most in their queue (the queue operations change nothing else).\<close>

definition same_but_q :: "plugin \<Rightarrow> plugin \<Rightarrow> bool" where
  "same_but_q p p' = (\<exists>x. p' = p\<lparr>q := x\<rparr>)"

text \<open>
  \<open>start_budget\<close> counts the start events emitted so far plus the one the drain handler
  of the ready queue can still emit. \<open>steady X Y s s'\<close> relates a state to a later one:
  no unit or timer identifier is reused, the start budget has not grown, a completed unit
  is still completed, the children queue of a unit outside \<open>X\<close> that was paused is still
  paused, the expired timer of a unit outside \<open>Y\<close> is still expired, and so is an expired
  timer of the ready-callback guard.
\<close>

definition start_budget :: "avvio \<Rightarrow> nat" where
  "start_budget s =
     count_list (calls s) (Emit ''start'') + (if drain (readyQ s) = ReadyDrain then 1 else 0)"

definition steady :: "pid set \<Rightarrow> pid set \<Rightarrow> avvio \<Rightarrow> avvio \<Rightarrow> bool" where
  "steady X Y s s' \<longleftrightarrow>
     next_pid s \<le> next_pid s' \<and> next_timer s \<le> next_timer s'
     \<and> start_budget s' \<le> start_budget s
     \<and> (\<forall>k<next_pid s.
           (completed (plugins s k) \<longrightarrow> completed (plugins s' k))
           \<and> (k \<notin> X \<longrightarrow> paused (q (plugins s k)) \<longrightarrow> paused (q (plugins s' k)))
           \<and> (k \<notin> Y \<longrightarrow> p_timer (plugins s k) = Null \<longrightarrow> p_timer (plugins s' k) = Null))
     \<and> (\<forall>t<next_timer s. fst (timers s t) = Null \<longrightarrow> fst (timers s' t) = Null)"


section \<open>Scenarios\<close>

text \<open>
  Concrete runs, used to instantiate the theorems below. Every orchestrator has the
  instance 7 and starts by itself. \<open>demo_boot\<close> is fresh, with no timeout and an
  \<^verbatim>\<open>override\<close> that is the identity; \<open>demo_timed\<close> is the same with a timeout of 50;
  the \<^verbatim>\<open>override\<close> of \<open>demo_refused\<close> throws, so that the root unit itself fails during
  construction. \<open>demo_booted\<close> is \<open>demo_boot\<close> after the loop has run: it has no units
  and has finished booting. In \<open>demo_ready\<close> one ready continuation with one parameter
  is registered on \<open>demo_boot\<close>.
\<close>

definition demo_boot :: avvio where
  "demo_boot = Avvio 0 7 True (\<lambda>srv i. Inr srv) None"



definition demo_booted :: avvio where
  "demo_booted = turns 2 demo_boot"



definition demo_running :: avvio where
  "demo_running = turns 2 (perform (Use (UserFn 1) ''A'') demo_boot)"


definition demo_stale :: avvio where
  "demo_stale = upd_plugin 1 (\<lambda>p. p\<lparr>loaded := True\<rparr>) demo_running"




text \<open>
  Children. In \<open>demo_early\<close> the function of A, while it runs, registers a child B and
  asks for partial completion (\<^verbatim>\<open>after()\<close> without a function); the loop then runs
  three tasks. In \<open>demo_late_at k\<close> the function of A registers B and completes without
  error; the loop runs two tasks, which brings it to the call of B's function; B
  completes and the loop runs \<open>k\<close> more tasks. \<open>demo_late_pre\<close> is the state of that
  run in which the first drain check of A is about to run while B is in flight.
\<close>

definition demo_early :: avvio where
  "demo_early = turns 3 (performs [Use (UserFn 2) ''B'', LoadRegistered] demo_running)"

definition demo_late_pre :: avvio where
  "demo_late_pre = turns 1 (performs [Use (UserFn 2) ''B'', Call (ExecDone 1) None] demo_running)"

definition demo_late_at :: "nat \<Rightarrow> avvio" where
  "demo_late_at k =
     turns k (perform (Call (ExecDone 2) None)
       (turns 2 (performs [Use (UserFn 2) ''B'', Call (ExecDone 1) None] demo_running)))"

text \<open>
  A failure. In \<open>demo_abc_at k\<close> three units are registered on \<open>demo_boot\<close>: A, B and
  an after-unit with a two-parameter continuation C; the function of A is called
  (\<open>demo_abc_pre\<close>) and reports an error; then the loop runs \<open>k\<close> tasks. In
  \<open>demo_skipped_partial\<close> unit B, skipped because of A's error, is the innermost open
  unit when partial completion is asked for; the loop then runs up to the drain check
  of B.
\<close>

definition demo_abc_pre :: avvio where
  "demo_abc_pre =
     turns 2 (performs [Use (UserFn 1) ''A'', Use (UserFn 2) ''B'', After (UserCont 3 2 RetNone)] demo_boot)"

definition demo_abc_at :: "nat \<Rightarrow> avvio" where
  "demo_abc_at k = turns k (perform (Call (ExecDone 1) (Some (UserError 1))) demo_abc_pre)"

definition demo_skipped_partial :: avvio where
  "demo_skipped_partial = turns 2 (perform LoadRegistered (demo_abc_at 1))"

text \<open>
  Ready and close. In \<open>demo_three_at k\<close> three ready continuations are registered on
  \<open>demo_boot\<close>, with two explicit starts in between, and the loop has run \<open>k\<close> tasks
  (after 13 it is idle). In \<open>demo_ready_after_boot\<close> the orchestrator has booted and is
  idle; \<^verbatim>\<open>ready()\<close> is called without a function, then \<^verbatim>\<open>ready\<close> with a function,
  and the loop runs until it is idle; \<open>demo_ready_callbacks_after_boot\<close> is the same run
  with a function in the first call too. In \<open>demo_close_once\<close> an \<^verbatim>\<open>onClose\<close> handler
  is registered on \<open>demo_boot\<close> and \<^verbatim>\<open>close\<close> is called with a one-parameter function;
  the loop runs until it is idle; in \<open>demo_close_twice\<close> \<^verbatim>\<open>close\<close> is then called a
  second time, with another function, and the loop again runs until it is idle.
\<close>

definition demo_three_at :: "nat \<Rightarrow> avvio" where
  "demo_three_at k =
     turns k (performs [Ready (UserCont 1 0 RetNone), Start, Ready (UserCont 2 1 RetNone),
                        Ready (UserCont 3 0 RetNone), Start] demo_boot)"

definition demo_ready_after_boot :: avvio where
  "demo_ready_after_boot = turns 20 (performs [ReadyPromise, Ready (UserCont 1 0 RetNone)] demo_booted)"

definition demo_ready_callbacks_after_boot :: avvio where
  "demo_ready_callbacks_after_boot =
     turns 20 (performs [Ready (UserCont 2 0 RetNone), Ready (UserCont 1 0 RetNone)] demo_booted)"

definition demo_close_once :: avvio where
  "demo_close_once =
     turns 20 (performs [OnClose (UserClose 1 1 RetNone), Close (UserClose 3 1 RetNone)] demo_boot)"

definition demo_close_twice :: avvio where
  "demo_close_twice = turns 20 (perform (Close (UserClose 2 1 RetNone)) demo_close_once)"

section \<open>Frame lemmas\<close>

lemma nextTick_simps [simp]:
  "plugins (nextTick t s) = plugins s" "promises (nextTick t s) = promises s"
  "next_prid (nextTick t s) = next_prid s" "next_pid (nextTick t s) = next_pid s"
  "a_error (nextTick t s) = a_error s" "calls (nextTick t s) = calls s"
  "booted (nextTick t s) = booted s" "current (nextTick t s) = current s"
  "readyQ (nextTick t s) = readyQ s" "closeQ (nextTick t s) = closeQ s"
  "micro (nextTick t s) = micro s" "ticks (nextTick t s) = ticks s @ [t]"
  "timers (nextTick t s) = timers s" "next_timer (nextTick t s) = next_timer s"
  "a_timeout (nextTick t s) = a_timeout s" "a_instance (nextTick t s) = a_instance s"
  "tagged (nextTick t s) = tagged s"
  by (simp_all add: nextTick_def)

lemma record_call_simps [simp]:
  "plugins (record_call c s) = plugins s" "promises (record_call c s) = promises s"
  "next_prid (record_call c s) = next_prid s" "next_pid (record_call c s) = next_pid s"
  "a_error (record_call c s) = a_error s" "calls (record_call c s) = calls s @ [c]"
  "booted (record_call c s) = booted s" "current (record_call c s) = current s"
  "readyQ (record_call c s) = readyQ s" "closeQ (record_call c s) = closeQ s"
  "ticks (record_call c s) = ticks s" "micro (record_call c s) = micro s"
  "timers (record_call c s) = timers s" "next_timer (record_call c s) = next_timer s"
  "a_timeout (record_call c s) = a_timeout s" "a_instance (record_call c s) = a_instance s"
  "tagged (record_call c s) = tagged s"
  by (simp_all add: record_call_def)

lemma queueMicrotask_simps [simp]:
  "plugins (queueMicrotask t s) = plugins s" "promises (queueMicrotask t s) = promises s"
  "next_prid (queueMicrotask t s) = next_prid s" "next_pid (queueMicrotask t s) = next_pid s"
  "a_error (queueMicrotask t s) = a_error s" "calls (queueMicrotask t s) = calls s"
  "booted (queueMicrotask t s) = booted s" "current (queueMicrotask t s) = current s"
  "readyQ (queueMicrotask t s) = readyQ s" "closeQ (queueMicrotask t s) = closeQ s"
  "ticks (queueMicrotask t s) = ticks s" "micro (queueMicrotask t s) = micro s @ [t]"
  "timers (queueMicrotask t s) = timers s" "next_timer (queueMicrotask t s) = next_timer s"
  "a_timeout (queueMicrotask t s) = a_timeout s" "a_instance (queueMicrotask t s) = a_instance s"
  "tagged (queueMicrotask t s) = tagged s"
  by (simp_all add: queueMicrotask_def)

lemma upd_plugin_simps [simp]:
  "plugins (upd_plugin i f s) = (plugins s)(i := f (plugins s i))"
  "promises (upd_plugin i f s) = promises s"
  "next_prid (upd_plugin i f s) = next_prid s" "next_pid (upd_plugin i f s) = next_pid s"
  "a_error (upd_plugin i f s) = a_error s" "calls (upd_plugin i f s) = calls s"
  "booted (upd_plugin i f s) = booted s" "current (upd_plugin i f s) = current s"
  "readyQ (upd_plugin i f s) = readyQ s" "closeQ (upd_plugin i f s) = closeQ s"
  "ticks (upd_plugin i f s) = ticks s" "micro (upd_plugin i f s) = micro s"
  "timers (upd_plugin i f s) = timers s" "next_timer (upd_plugin i f s) = next_timer s"
  "a_timeout (upd_plugin i f s) = a_timeout s" "a_instance (upd_plugin i f s) = a_instance s"
  "tagged (upd_plugin i f s) = tagged s"
  by (simp_all add: upd_plugin_def)

lemma same_but_q_refl [simp]: "same_but_q p p"
  by (auto simp: same_but_q_def intro: exI[of _ "q p"])

lemma same_but_q_upd [simp]: "same_but_q p (p\<lparr>q := x\<rparr>)"
  by (auto simp: same_but_q_def)

lemma same_but_q_trans: "same_but_q a b \<Longrightarrow> same_but_q b c \<Longrightarrow> same_but_q a c"
  by (auto simp: same_but_q_def)

lemma same_but_q_fields:
  "same_but_q p p' \<Longrightarrow> loaded p' = loaded p \<and> p_promise p' = p_promise p \<and> p_server p' = p_server p
     \<and> isAfter p' = isAfter p \<and> completed p' = completed p \<and> p_error p' = p_error p"
  by (auto simp: same_but_q_def)

lemma pluginQ_signal_frame:
  "same_but_q (plugins s i) (plugins (pluginQ_signal j sig s) i)"
  "promises (pluginQ_signal j sig s) = promises s"
  "next_prid (pluginQ_signal j sig s) = next_prid s"
  "next_pid (pluginQ_signal j sig s) = next_pid s"
  by (auto simp: pluginQ_signal_def split: option.splits qsignal.splits pdrain.splits)

lemma pluginQ_push_frame:
  "same_but_q (plugins s i) (plugins (pluginQ_push j c s) i)"
  "promises (pluginQ_push j c s) = promises s"
  "next_prid (pluginQ_push j c s) = next_prid s"
  "next_pid (pluginQ_push j c s) = next_pid s"
  unfolding pluginQ_push_def
  by (auto simp: pluginQ_signal_frame split: prod.splits
      intro!: same_but_q_trans[OF _ pluginQ_signal_frame(1)])

lemma pluginQ_resume_frame:
  "same_but_q (plugins s i) (plugins (pluginQ_resume j s) i)"
  "promises (pluginQ_resume j s) = promises s"
  "next_prid (pluginQ_resume j s) = next_prid s"
  "next_pid (pluginQ_resume j s) = next_pid s"
  unfolding pluginQ_resume_def
  by (auto simp: pluginQ_signal_frame split: prod.splits
      intro!: same_but_q_trans[OF _ pluginQ_signal_frame(1)])

lemma addPlugin_frame:
  assumes "addPlugin f nm a s = Inr (j, s')" and "i < next_pid s"
  shows "same_but_q (plugins s i) (plugins s' i)" and "promises s' = promises s"
    and "next_prid s' = next_prid s"
  using assms unfolding addPlugin_def
  by (auto simp: Let_def pluginQ_push_frame split: if_splits list.splits
      intro!: same_but_q_trans[OF _ pluginQ_push_frame(1)])

lemma setup_loadedSoFar_frame:
  assumes "setup_loadedSoFar i s = Inr s'" and "k < next_pid s"
  shows "same_but_q (plugins s k) (plugins s' k)" and "promises s' = promises s"
    and "next_prid s' = next_prid s"
  using assms unfolding setup_loadedSoFar_def after_def
  by (auto simp: pluginQ_resume_frame split: sum.splits prod.splits
      dest: addPlugin_frame intro: same_but_q_trans[OF _ pluginQ_resume_frame(1)])

lemma settle_simps [simp]:
  "plugins (settle p e s) = plugins s"
  "next_prid (settle p e s) = next_prid s" "next_pid (settle p e s) = next_pid s"
  "a_error (settle p e s) = a_error s" "calls (settle p e s) = calls s"
  "booted (settle p e s) = booted s" "current (settle p e s) = current s"
  "readyQ (settle p e s) = readyQ s" "closeQ (settle p e s) = closeQ s"
  "ticks (settle p e s) = ticks s" "micro (settle p e s) = micro s"
  "timers (settle p e s) = timers s" "next_timer (settle p e s) = next_timer s"
  "a_timeout (settle p e s) = a_timeout s" "a_instance (settle p e s) = a_instance s"
  "tagged (settle p e s) = tagged s"
  by (simp_all add: settle_def)

lemma apply_closefn_a_error [simp]: "a_error (snd (apply_closefn g as c s)) = a_error s"
  by (cases g) (auto split: list.splits arg.splits)

lemma closeWithCallbackOrNextTick_a_error [simp]:
  "a_error (closeWithCallbackOrNextTick g c s) = a_error s"
proof -
  have "\<And>as k. a_error (case apply_closefn g as k s of (RetNone, s') \<Rightarrow> nextTick (T_callback c None) s'
           | (_, s') \<Rightarrow> s') = a_error s"
    using apply_closefn_a_error[of g _ _ s]
    by (auto split: prod.splits ret.splits simp del: apply_closefn_a_error) (metis snd_conv)+
  then show ?thesis
    by (simp add: closeWithCallbackOrNextTick_def Let_def)
qed

lemma closeQ_signal_a_error [simp]: "a_error (closeQ_signal sig s) = a_error s"
  by (auto simp: closeQ_signal_def split: option.splits qsignal.splits cdrain.splits)

lemma closeQ_push_a_error [simp]: "a_error (closeQ_push x s) = a_error s"
  by (auto simp: closeQ_push_def split: prod.splits)

section \<open>Partial completion asked twice\<close>

lemma loadedSoFar_pending:
  "\<not> loaded (plugins s i) \<Longrightarrow> p_promise (plugins s i) = Some pr \<Longrightarrow>
     loadedSoFar i s = Inr (FreshResolved, s)"
  by (simp add: loadedSoFar_def)

text \<open>
  Claim C10. A call of \<^verbatim>\<open>loadedSoFar\<close> on a unit that is not loaded while a
  partial-completion promise of the unit is stored returns a promise resolved on the
  spot and leaves the state as it is: it registers nothing and waits for nothing. The
  stored promise is the one the first caller received: for a unit (an existing one)
  that is not loaded and has no such promise yet, a call that returns hands back the
  promise it has just created and stored, which is still pending, and a second call
  made then returns the promise resolved on the spot.
\<close>

theorem loadedSoFar_second_caller:
  "(\<not> loaded (plugins s i) \<and> p_promise (plugins s i) = Some pr \<longrightarrow>
      loadedSoFar i s = Inr (FreshResolved, s))
   \<and> (\<not> loaded (plugins s i) \<and> p_promise (plugins s i) = None \<and> i < next_pid s
       \<and> loadedSoFar i s = Inr (a, s') \<longrightarrow>
      a = Tracked (next_prid s) \<and> promises s' (next_prid s) = Pending
      \<and> \<not> loaded (plugins s' i) \<and> p_promise (plugins s' i) = Some (next_prid s)
      \<and> loadedSoFar i s' = Inr (FreshResolved, s'))"
proof -
  have 2: "a = Tracked (next_prid s) \<and> promises s' (next_prid s) = Pending
         \<and> \<not> loaded (plugins s' i) \<and> p_promise (plugins s' i) = Some (next_prid s)
         \<and> loadedSoFar i s' = Inr (FreshResolved, s')"
    if h: "\<not> loaded (plugins s i)" "p_promise (plugins s i) = None" "i < next_pid s"
      "loadedSoFar i s = Inr (a, s')"
  proof -
    define s2 where "s2 = upd_plugin i (\<lambda>p. p\<lparr>p_promise := Some (next_prid s)\<rparr>) (snd (createPromise s))"
    have s2: "\<not> loaded (plugins s2 i)" "p_promise (plugins s2 i) = Some (next_prid s)"
      "promises s2 (next_prid s) = Pending" "i < next_pid s2"
      using h(1,3) by (simp_all add: s2_def createPromise_def)
    have cases: "a = Tracked (next_prid s) \<and>
       (s' = upd_plugin i (\<lambda>p. p\<lparr>onStartSetup := Suc (onStartSetup p)\<rparr>) s2 \<or> setup_loadedSoFar i s2 = Inr s')"
      using h(1,2,4) unfolding loadedSoFar_def s2_def
      by (auto simp: createPromise_def Let_def split: if_splits sum.splits)
    from cases have keep: "\<not> loaded (plugins s' i) \<and> p_promise (plugins s' i) = Some (next_prid s)
        \<and> promises s' (next_prid s) = Pending"
    proof (elim conjE disjE)
      assume "s' = upd_plugin i (\<lambda>p. p\<lparr>onStartSetup := Suc (onStartSetup p)\<rparr>) s2"
      then show ?thesis using s2 by simp
    next
      assume st: "setup_loadedSoFar i s2 = Inr s'"
      from setup_loadedSoFar_frame[OF st s2(4)] same_but_q_fields[of "plugins s2 i" "plugins s' i"] s2
      show ?thesis by simp
    qed
    with cases loadedSoFar_pending[of s' i "next_prid s"] show ?thesis by simp
  qed
  from 2 loadedSoFar_pending[of s i pr] show ?thesis by blast
qed

theorem loadedSoFar_second_caller_witness:
  "\<not> loaded (plugins demo_running 1) \<and> p_promise (plugins demo_running 1) = None
   \<and> 1 < next_pid demo_running
   \<and> (\<exists>a s'. loadedSoFar 1 demo_running = Inr (a, s') \<and> a = Tracked (next_prid demo_running)
         \<and> promises s' (next_prid demo_running) = Pending
         \<and> \<not> loaded (plugins s' 1) \<and> p_promise (plugins s' 1) = Some (next_prid demo_running)
         \<and> loadedSoFar 1 s' = Inr (FreshResolved, s'))"
proof -
  have h: "\<not> loaded (plugins demo_running 1)" "p_promise (plugins demo_running 1) = None"
    "1 < next_pid demo_running"
    by code_simp+
  have "\<not> isl (loadedSoFar 1 demo_running)" by code_simp
  then obtain a s' where r: "loadedSoFar 1 demo_running = Inr (a, s')"
    by (cases "loadedSoFar 1 demo_running") auto
  from loadedSoFar_second_caller[where s = demo_running and i = 1 and a = a and s' = s'] h r
  have 1: "a = Tracked (next_prid demo_running)" "promises s' (next_prid demo_running) = Pending"
    "\<not> loaded (plugins s' 1)" "p_promise (plugins s' 1) = Some (next_prid demo_running)"
    by blast+
  from loadedSoFar_second_caller[where s = s' and i = 1 and pr = "next_prid demo_running"] 1(3,4)
  have 2: "loadedSoFar 1 s' = Inr (FreshResolved, s')" by blast
  from h r 1 2 show ?thesis by blast
qed

section \<open>Registration that is refused\<close>

text \<open>
  Claim C7, amended. \<^verbatim>\<open>_addPlugin\<close> validates the plugin before it looks at the booted
  flag. So: a value that is not a plugin raises the not-valid failure, booted or not; a
  valid plugin registered after boot raises the root-already-booted failure (for
  \<^verbatim>\<open>after\<close> with a function the plugin is always valid); before boot, a registration
  whose target, the innermost open unit, is already loaded raises a plain error. In
  every one of these cases the call returns the error and no state, so nothing was
  enqueued.
\<close>

theorem registration_refused:
  "(f = NotAPlugin \<longrightarrow> use f nm s = Inl AVV_ERR_PLUGIN_NOT_VALID)
   \<and> (booted s \<and> f \<noteq> NotAPlugin \<longrightarrow> use f nm s = Inl AVV_ERR_ROOT_PLG_BOOTED)
   \<and> (booted s \<longrightarrow> after c s = Inl AVV_ERR_ROOT_PLG_BOOTED)
   \<and> (\<not> booted s \<and> f \<noteq> NotAPlugin \<and> current s = cur # rest \<and> loaded (plugins s cur) \<longrightarrow>
        use f nm s = Inl (PlainError nm) \<and> after c s = Inl (PlainError ''bound _after''))"
  by (simp add: use_def after_def addPlugin_def)

theorem registration_refused_witness:
  "booted demo_booted \<and> UserFn 1 \<noteq> NotAPlugin
   \<and> use (UserFn 1) ''A'' demo_booted = Inl AVV_ERR_ROOT_PLG_BOOTED
   \<and> after (UserCont 1 1 RetNone) demo_booted = Inl AVV_ERR_ROOT_PLG_BOOTED
   \<and> use NotAPlugin ''A'' demo_booted = Inl AVV_ERR_PLUGIN_NOT_VALID
   \<and> \<not> booted demo_stale \<and> current demo_stale = [1, 0] \<and> loaded (plugins demo_stale 1)
   \<and> use (UserFn 1) ''A'' demo_stale = Inl (PlainError ''A'')"
proof -
  have b: "booted demo_booted" by code_simp
  have st: "\<not> booted demo_stale" "current demo_stale = [1, 0]" "loaded (plugins demo_stale 1)"
    by code_simp+
  from registration_refused[of "UserFn 1" "''A''" demo_booted "UserCont 1 1 RetNone"] b
  have 1: "use (UserFn 1) ''A'' demo_booted = Inl AVV_ERR_ROOT_PLG_BOOTED
   \<and> after (UserCont 1 1 RetNone) demo_booted = Inl AVV_ERR_ROOT_PLG_BOOTED" by simp
  from registration_refused[of NotAPlugin "''A''" demo_booted]
  have 2: "use NotAPlugin ''A'' demo_booted = Inl AVV_ERR_PLUGIN_NOT_VALID" by simp
  from registration_refused[where f = "UserFn 1" and nm = "''A''" and s = demo_stale and cur = 1
      and rest = "[0]"] st
  have 3: "use (UserFn 1) ''A'' demo_stale = Inl (PlainError ''A'')" by simp
  from b st 1 2 3 show ?thesis by simp
qed

theorem registration_refused_counterexample:
  "booted demo_booted \<and> use NotAPlugin ''x'' demo_booted = Inl AVV_ERR_PLUGIN_NOT_VALID
   \<and> use NotAPlugin ''x'' demo_booted \<noteq> Inl AVV_ERR_ROOT_PLG_BOOTED"
proof -
  have "booted demo_booted" by code_simp
  moreover have "use NotAPlugin ''x'' demo_booted = Inl AVV_ERR_PLUGIN_NOT_VALID"
    by (simp add: use_def addPlugin_def)
  ultimately show ?thesis by simp
qed

section \<open>The failure of the root unit\<close>



section \<open>The calling conventions of continuations\<close>




section \<open>What every entry point preserves\<close>

lemma steady_refl [simp]: "steady X Y s s"
  by (simp add: steady_def)

lemma steady_trans: "steady X Y s x \<Longrightarrow> steady X Y x y \<Longrightarrow> steady X Y s y"
  unfolding steady_def by (auto simp: less_le_trans) 

lemma steady_mono: "steady X Y s x \<Longrightarrow> X \<subseteq> X' \<Longrightarrow> Y \<subseteq> Y' \<Longrightarrow> steady X' Y' s x"
  unfolding steady_def by auto

lemma steady_nextTick [simp]: "steady X Y s (nextTick t x) = steady X Y s x"
  by (simp add: steady_def nextTick_def start_budget_def)

lemma steady_queueMicrotask [simp]: "steady X Y s (queueMicrotask t x) = steady X Y s x"
  by (simp add: steady_def queueMicrotask_def start_budget_def)

lemma steady_settle [simp]: "steady X Y s (settle p e x) = steady X Y s x"
  by (simp add: steady_def settle_def start_budget_def)

lemma steady_record_call [simp]:
  "c \<noteq> Emit ''start'' \<Longrightarrow> steady X Y s (record_call c x) = steady X Y s x"
  by (simp add: steady_def record_call_def start_budget_def)

lemma steady_fields [simp]:
  "steady X Y s (x\<lparr>a_error := e\<rparr>) = steady X Y s x"
  "steady X Y s (x\<lparr>current := cs\<rparr>) = steady X Y s x"
  "steady X Y s (x\<lparr>booted := b\<rparr>) = steady X Y s x"
  "steady X Y s (x\<lparr>root := r\<rparr>) = steady X Y s x"
  "steady X Y s (x\<lparr>doStart := d\<rparr>) = steady X Y s x"
  "steady X Y s (x\<lparr>a_started := b\<rparr>) = steady X Y s x"
  "steady X Y s (x\<lparr>lastUsed := l\<rparr>) = steady X Y s x"
  "steady X Y s (x\<lparr>ticks := ts\<rparr>) = steady X Y s x"
  "steady X Y s (x\<lparr>micro := ms\<rparr>) = steady X Y s x"
  "steady X Y s (x\<lparr>in_micro := b\<rparr>) = steady X Y s x"
  "steady X Y s (x\<lparr>tagged := tg\<rparr>) = steady X Y s x"
  "steady X Y s (x\<lparr>closeQ := cq\<rparr>) = steady X Y s x"
  by (simp_all add: steady_def start_budget_def)

lemma steady_readyQ:
  "steady X Y s x \<Longrightarrow> drain rq = drain (readyQ x) \<or> drain rq = RNoop \<Longrightarrow> steady X Y s (x\<lparr>readyQ := rq\<rparr>)"
  unfolding steady_def start_budget_def by (auto split: if_splits)

lemma steady_upd_plugin:
  "steady X Y s x \<Longrightarrow>
   (completed (plugins x i) \<longrightarrow> completed (f (plugins x i))) \<Longrightarrow>
   (i \<in> X \<or> (paused (q (plugins x i)) \<longrightarrow> paused (q (f (plugins x i))))) \<Longrightarrow>
   (i \<in> Y \<or> (p_timer (plugins x i) = Null \<longrightarrow> p_timer (f (plugins x i)) = Null)) \<Longrightarrow>
   steady X Y s (upd_plugin i f x)"
  unfolding steady_def start_budget_def upd_plugin_def by auto


lemma q_push_keeps: "q_push a Q = (Q', sig) \<Longrightarrow> paused Q' = paused Q \<and> drain Q' = drain Q"
  by (auto simp: q_push_def split: if_splits)

lemma q_unshift_keeps: "q_unshift a Q = (Q', sig) \<Longrightarrow> paused Q' = paused Q \<and> drain Q' = drain Q"
  by (auto simp: q_unshift_def split: if_splits)

lemma q_release_keeps: "q_release Q = (Q', sig) \<Longrightarrow> paused Q' = paused Q \<and> drain Q' = drain Q"
  by (auto simp: q_release_def split: if_splits list.splits)

lemma q_resume_keeps: "q_resume Q = (Q', sig) \<Longrightarrow> drain Q' = drain Q"
  by (auto simp: q_resume_def split: if_splits dest: q_release_keeps)

lemma steady_apply_closefn:
  "apply_closefn g as c x = (r, y) \<Longrightarrow> steady X Y s x \<Longrightarrow> steady X Y s y"
  by (cases g) (auto split: list.splits arg.splits)

lemma steady_closeWithCallbackOrNextTick:
  "steady X Y s x \<Longrightarrow> steady X Y s (closeWithCallbackOrNextTick g c x)"
  unfolding closeWithCallbackOrNextTick_def Let_def
  by (auto split: prod.splits ret.splits intro: steady_apply_closefn
      simp: snd_def)

lemma steady_closeQ_signal:
  "steady X Y s x \<Longrightarrow> steady X Y s (closeQ_signal sig x)"
  unfolding closeQ_signal_def
  by (auto split: option.splits qsignal.splits cdrain.splits
      intro!: steady_closeWithCallbackOrNextTick steady_readyQ)

lemma steady_closeQ_ops:
  "steady X Y s x \<Longrightarrow> steady X Y s (closeQ_push a x)"
  "steady X Y s x \<Longrightarrow> steady X Y s (closeQ_unshift a x)"
  "steady X Y s x \<Longrightarrow> steady X Y s (closeQ_resume x)"
  "steady X Y s x \<Longrightarrow> steady X Y s (closeQ_release x)"
  unfolding closeQ_push_def closeQ_unshift_def closeQ_resume_def closeQ_release_def
  by (auto split: prod.splits intro!: steady_closeQ_signal)

lemma steady_loadedSoFar_cb:
  "steady X Y s x \<Longrightarrow> steady X Y s (loadedSoFar_cb i e c x)"
  unfolding loadedSoFar_cb_def Let_def
  by (auto split: option.splits intro!: steady_upd_plugin simp: q_pause_def)

lemma steady_apply_cont:
  "apply_cont f as c x = (r, y) \<Longrightarrow> steady X Y s x \<Longrightarrow> steady X Y s y"
  by (cases f) (auto split: list.splits arg.splits option.splits rctx.splits simp: Let_def
      intro!: steady_closeQ_ops steady_loadedSoFar_cb)

lemma steady_snd_apply_cont:
  "steady X Y s x \<Longrightarrow> steady X Y s (snd (apply_cont f as c x))"
  using steady_apply_cont[of f as c x] by (cases "apply_cont f as c x") auto

lemma steady_executeWithThenable:
  "steady X Y s x \<Longrightarrow> steady X Y s (executeWithThenable f as c x)"
  unfolding executeWithThenable_def
  by (auto split: prod.splits ret.splits intro: steady_apply_cont)

lemma steady_timers:
  "steady X Y s x \<Longrightarrow> next_timer x \<le> n \<Longrightarrow>
   (u < next_timer x \<longrightarrow> fst (timers x u) = Null \<longrightarrow> fst v = Null) \<Longrightarrow>
   steady X Y s (x\<lparr>timers := (timers x)(u := v), next_timer := n\<rparr>)"
  unfolding steady_def start_budget_def by auto

lemma steady_timers':
  "steady X Y s x \<Longrightarrow>
   (u < next_timer x \<longrightarrow> fst (timers x u) = Null \<longrightarrow> fst v = Null) \<Longrightarrow>
   steady X Y s (x\<lparr>timers := (timers x)(u := v)\<rparr>)"
  unfolding steady_def start_budget_def by auto

lemma steady_setupTimeout:
  "steady X Y s x \<Longrightarrow> steady X Y s (setupTimeout f e c k x)"
  unfolding setupTimeout_def Let_def
  by (auto intro!: steady_snd_apply_cont steady_timers)

lemma steady_callWithCallbackOrNextTick:
  "steady X Y s x \<Longrightarrow> steady X Y s (callWithCallbackOrNextTick f c x)"
  unfolding callWithCallbackOrNextTick_def Let_def
  by (auto intro!: steady_snd_apply_cont steady_setupTimeout steady_executeWithThenable)

lemma steady_start_emitted:
  "steady X Y s x \<Longrightarrow> drain (readyQ x) = ReadyDrain \<Longrightarrow>
   steady X Y s ((record_call (Emit ''start'') x)\<lparr>readyQ := (readyQ x)\<lparr>drain := RNoop\<rparr>\<rparr>)"
  unfolding steady_def start_budget_def record_call_def by auto

lemma steady_readyQ_signal:
  "steady X Y s x \<Longrightarrow> steady X Y s (readyQ_signal sig x)"
  unfolding readyQ_signal_def
  by (auto split: option.splits qsignal.splits rdrain.splits
      intro!: steady_callWithCallbackOrNextTick steady_start_emitted)

lemma steady_readyQ_ops:
  "steady X Y s x \<Longrightarrow> steady X Y s (readyQ_push a x)"
  "steady X Y s x \<Longrightarrow> steady X Y s (readyQ_resume x)"
  "steady X Y s x \<Longrightarrow> steady X Y s (readyQ_release x)"
  unfolding readyQ_push_def readyQ_resume_def readyQ_release_def
  by (auto split: prod.splits intro!: steady_readyQ_signal steady_readyQ
      dest: q_push_keeps q_resume_keeps q_release_keeps)


lemma steady_pluginQ_signal:
  "steady X Y s x \<Longrightarrow> steady X Y s (pluginQ_signal i sig x)"
  unfolding pluginQ_signal_def
  by (auto split: option.splits qsignal.splits pdrain.splits intro!: steady_upd_plugin)

lemma steady_pluginQ_ops:
  "steady X Y s x \<Longrightarrow> steady X Y s (pluginQ_push i a x)"
  "steady X Y s x \<Longrightarrow> steady X Y s (pluginQ_release i x)"
  unfolding pluginQ_push_def pluginQ_release_def
  by (auto split: prod.splits intro!: steady_pluginQ_signal steady_upd_plugin
      dest: q_push_keeps q_release_keeps)

lemma steady_pluginQ_resume:
  "steady X Y s x \<Longrightarrow> i \<in> X \<Longrightarrow> steady X Y s (pluginQ_resume i x)"
  unfolding pluginQ_resume_def
  by (auto split: prod.splits intro!: steady_pluginQ_signal steady_upd_plugin)

lemma steady_root_callback:
  "steady X Y s x \<Longrightarrow> steady X Y s (root_callback e x)"
  unfolding root_callback_def Let_def
  by (auto split: option.splits intro!: steady_readyQ_ops)

lemma steady_plugin_worked:
  "steady X Y s x \<Longrightarrow> steady X Y s (plugin_worked i e x)"
  unfolding plugin_worked_def
  by (auto split: option.splits intro!: steady_root_callback steady_pluginQ_ops)

lemma steady_finish_done:
  "steady X Y s x \<Longrightarrow> steady X Y s (finish_done i e x)"
  unfolding finish_done_def Let_def
  by (auto intro!: steady_plugin_worked steady_upd_plugin)

lemma steady_check:
  "steady X Y s x \<Longrightarrow> steady X Y s (check i x)"
  unfolding check_def Let_def
  by (auto split: option.splits intro!: steady_finish_done steady_upd_plugin)

lemma steady_finish:
  "steady X Y s x \<Longrightarrow> e = None \<longrightarrow> i \<in> X \<Longrightarrow> steady X Y s (finish i e x)"
  unfolding finish_def
  by (auto split: option.splits intro!: steady_finish_done steady_upd_plugin steady_pluginQ_resume)

lemma steady_exec_done:
  "steady X Y s x \<Longrightarrow> e = None \<longrightarrow> i \<in> X \<Longrightarrow> steady X Y s (exec_done i e x)"
  unfolding exec_done_def Let_def
  by (auto intro!: steady_finish steady_upd_plugin)

lemma steady_exec_timer_expired:
  "steady X Y s x \<Longrightarrow> steady X Y s (exec_timer_expired i x)"
  unfolding exec_timer_expired_def
  by (auto intro!: steady_exec_done steady_upd_plugin)

lemma steady_start:
  "steady X Y s x \<Longrightarrow> steady X Y s (start x)"
  unfolding start_def Let_def
  by (auto split: option.splits)

lemma steady_new_plugin:
  "steady X Y s x \<Longrightarrow> steady X Y s (x\<lparr>plugins := (plugins x)(next_pid x := p), next_pid := Suc (next_pid x)\<rparr>)"
  unfolding steady_def start_budget_def by auto

lemma steady_addPlugin:
  "addPlugin f nm a x = Inr (j, y) \<Longrightarrow> steady X Y s x \<Longrightarrow> steady X Y s y"
  unfolding addPlugin_def Let_def
  by (auto split: if_splits list.splits intro!: steady_pluginQ_ops steady_new_plugin)

lemma steady_use:
  "use f nm x = Inr y \<Longrightarrow> steady X Y s x \<Longrightarrow> steady X Y s y"
  unfolding use_def
  by (auto split: sum.splits dest: steady_addPlugin)

lemma steady_after:
  "after f x = Inr y \<Longrightarrow> steady X Y s x \<Longrightarrow> steady X Y s y"
  unfolding after_def
  by (auto split: sum.splits dest: steady_addPlugin)

lemma steady_setup_loadedSoFar:
  "setup_loadedSoFar i x = Inr y \<Longrightarrow> steady X Y s x \<Longrightarrow> i \<in> X \<Longrightarrow> steady X Y s y"
  "setup_loadedSoFar i x = Inl (e, y) \<Longrightarrow> steady X Y s x \<Longrightarrow> steady X Y s y"
  unfolding setup_loadedSoFar_def
  by (auto split: sum.splits dest: steady_after intro!: steady_pluginQ_resume)

lemma steady_create_promise:
  "steady X Y s (snd (createPromise x)) = steady X Y s x"
  by (simp add: steady_def createPromise_def start_budget_def)


lemma steady_createPromise:
  "createPromise x = (pr, y) \<Longrightarrow> steady X Y s y = steady X Y s x"
  by (auto simp: steady_def createPromise_def start_budget_def)

lemma steady_loadedSoFar:
  assumes "steady X Y s x"
  shows "loadedSoFar i x = Inr (a, y) \<Longrightarrow> i \<in> X \<Longrightarrow> steady X Y s y"
    and "loadedSoFar i x = Inl (e, y) \<Longrightarrow> steady X Y s y"
proof -
  obtain pr x1 where cp: "createPromise x = (pr, x1)" by (cases "createPromise x")
  define x2 where "x2 = upd_plugin i (\<lambda>p. p\<lparr>p_promise := Some pr\<rparr>) x1"
  have x2: "steady X Y s x2"
    unfolding x2_def using assms steady_createPromise[OF cp]
    by (auto intro!: steady_upd_plugin)
  have x3: "steady X Y s (upd_plugin i (\<lambda>p. p\<lparr>onStartSetup := Suc (onStartSetup p)\<rparr>) x2)"
    using x2 by (auto intro!: steady_upd_plugin)
  show "loadedSoFar i x = Inr (a, y) \<Longrightarrow> i \<in> X \<Longrightarrow> steady X Y s y"
    using assms x2 x3 cp steady_setup_loadedSoFar(1)[of i x2 y X Y s]
    unfolding loadedSoFar_def Let_def x2_def
    by (auto split: if_splits option.splits sum.splits)
  show "loadedSoFar i x = Inl (e, y) \<Longrightarrow> steady X Y s y"
    using assms x2 x3 cp steady_setup_loadedSoFar(2)[of i x2 e y X Y s]
    unfolding loadedSoFar_def Let_def x2_def
    by (auto split: if_splits option.splits sum.splits)
qed

lemma steady_loadRegistered:
  assumes "steady X Y s x"
  shows "loadRegistered x = Inr (a, y) \<Longrightarrow> may_resume LoadRegistered x \<subseteq> X \<Longrightarrow> steady X Y s y"
    and "loadRegistered x = Inl (e, y) \<Longrightarrow> steady X Y s y"
proof -
  define x1 where "x1 = (if \<not> a_started x \<and> \<not> booted x then nextTick T_rootQ_resume x else x)"
  have x1: "steady X Y s x1" unfolding x1_def using assms by simp
  show "loadRegistered x = Inr (a, y) \<Longrightarrow> may_resume LoadRegistered x \<subseteq> X \<Longrightarrow> steady X Y s y"
    using x1 steady_loadedSoFar(1)[OF x1, of _ a y]
    unfolding loadRegistered_def Let_def may_resume_def x1_def
    by (auto split: list.splits)
  show "loadRegistered x = Inl (e, y) \<Longrightarrow> steady X Y s y"
    using x1 steady_loadedSoFar(2)[OF x1, of _ e y]
    unfolding loadRegistered_def Let_def x1_def
    by (auto split: list.splits)
qed

lemma steady_run_setups:
  "run_setups n i x = Inr y \<Longrightarrow> steady X Y s x \<Longrightarrow> n > 0 \<longrightarrow> i \<in> X \<Longrightarrow> steady X Y s y"
proof (induction n arbitrary: x)
  case 0
  then show ?case by simp
next
  case (Suc n)
  then show ?case
    using steady_setup_loadedSoFar(1)[of i x _ X Y s]
    by (cases n) (auto split: sum.splits)
qed

lemma steady_run_setups_thrown:
  "run_setups n i x = Inl (e, y) \<Longrightarrow> steady X Y s x \<Longrightarrow> n > 0 \<longrightarrow> i \<in> X \<Longrightarrow> steady X Y s y"
proof (induction n arbitrary: x)
  case 0
  then show ?case by simp
next
  case (Suc n)
  then show ?case
    using steady_setup_loadedSoFar(1)[of i x _ X Y s] steady_setup_loadedSoFar(2)[of i x e y X Y s]
    by (cases n) (auto split: sum.splits)
qed

lemma steady_call_func:
  "steady X Y s x \<Longrightarrow> steady X Y s (call_func i x)"
  unfolding call_func_def Let_def
  by (auto split: pfunc.splits intro!: steady_callWithCallbackOrNextTick steady_start)

lemma steady_exec:
  assumes "steady X Y s x" and "load_resumes i x \<subseteq> X" and "i \<in> Y"
  shows "steady X Y s (exec i srv x)"
proof -
  have n: "onStartSetup (plugins x i) > 0 \<longrightarrow> i \<in> X"
    using assms(2) by (auto simp: load_resumes_def)
  have x1: "steady X Y s (upd_plugin i (\<lambda>p. p\<lparr>p_server := Some sv,
                                p_timer := (if timeout p > 0 then Armed else Unset),
                                started := True\<rparr>) x)" for sv
    using assms(1,3) by (auto intro!: steady_upd_plugin)
  show ?thesis
    unfolding exec_def Let_def
    using assms(1) n
    by (auto split: sum.splits prod.splits
        intro!: steady_finish steady_call_func
        intro: steady_run_setups[OF _ x1] steady_run_setups_thrown[OF _ x1])
qed

lemma steady_loadPlugin:
  "steady X Y s x \<Longrightarrow> load_resumes i x \<subseteq> X \<Longrightarrow> i \<in> Y \<Longrightarrow> steady X Y s (loadPlugin i x)"
  unfolding loadPlugin_def Let_def
  by (auto split: pfunc.splits intro!: steady_exec simp: load_resumes_def)

lemma steady_func_resolved:
  "steady X Y s x \<Longrightarrow> load_resumes i x \<subseteq> X \<Longrightarrow> i \<in> Y \<Longrightarrow> steady X Y s (func_resolved i f x)"
  unfolding func_resolved_def
  by (auto intro!: steady_loadPlugin steady_upd_plugin simp: load_resumes_def)

lemma steady_func_rejected:
  "steady X Y s x \<Longrightarrow> steady X Y s (func_rejected i e x)"
  unfolding func_rejected_def by (auto intro!: steady_plugin_worked)

lemma steady_ready:
  "steady X Y s x \<Longrightarrow> steady X Y s (ready f x)"
  unfolding ready_def by (auto intro!: steady_readyQ_ops)

lemma steady_ready_promise:
  "steady X Y s x \<Longrightarrow> steady X Y s (snd (ready_promise x))"
proof -
  assume a: "steady X Y s x"
  obtain pr x1 where cp: "createPromise x = (pr, x1)" by (cases "createPromise x")
  have x1: "steady X Y s x1" using a steady_createPromise[OF cp] by simp
  show ?thesis
    unfolding ready_promise_def Let_def cp
    using x1
    by (auto split: prod.splits option.splits qsignal.splits
        intro!: steady_start steady_callWithCallbackOrNextTick steady_readyQ
        dest: q_push_keeps)
qed

lemma steady_close:
  "steady X Y s x \<Longrightarrow> steady X Y s (close f x)"
  "steady X Y s x \<Longrightarrow> steady X Y s (onClose f x)"
  "steady X Y s x \<Longrightarrow> steady X Y s (snd (close_promise x))"
  unfolding close_def onClose_def close_promise_def
  by (auto split: prod.splits intro!: steady_ready steady_closeQ_ops simp: steady_createPromise)

lemma steady_run_cb:
  "steady X Y s x \<Longrightarrow> cb_resumes c e \<subseteq> X \<Longrightarrow> steady X Y s (run_cb c e x)"
proof (induction c arbitrary: x)
  case (TimeoutCallback t c)
  then show ?case
    by (auto split: prod.splits intro!: TimeoutCallback.IH steady_timers')
qed (auto split: if_splits option.splits intro!: steady_exec_done steady_finish steady_readyQ_ops steady_closeQ_ops)

lemma cb_resumes_error [simp]: "cb_resumes c (Some e) = {}"
  by (induction c) auto

lemma steady_timer_expired:
  "steady X Y s x \<Longrightarrow> steady X Y s (timer_expired t x)"
  unfolding timer_expired_def
  by (auto split: prod.splits intro!: steady_run_cb steady_timers')

lemma steady_run_task:
  "steady X Y s x \<Longrightarrow> task_resumes t x \<subseteq> X \<Longrightarrow> (\<forall>i. t = T_loadPlugin i \<longrightarrow> i \<in> Y) \<Longrightarrow>
   steady X Y s (run_task t x)"
  by (cases t) (auto simp: task_resumes_def split: option.splits
      intro!: steady_run_cb steady_loadPlugin steady_check steady_start steady_closeQ_ops
        steady_pluginQ_resume)

lemma steady_perform: "steady (may_resume a s) UNIV s (perform a s)"
proof (cases a)
  case (Task t)
  then show ?thesis by (auto simp: may_resume_def intro!: steady_run_task)
next
  case (Use f nm)
  then show ?thesis using steady_use[of f nm s _ "may_resume a s" UNIV s]
    by (auto split: sum.splits)
next
  case (After f)
  then show ?thesis using steady_after[of f s _ "may_resume a s" UNIV s]
    by (auto split: sum.splits)
next
  case LoadRegistered
  then show ?thesis
    using steady_loadRegistered(1)[of "may_resume a s" UNIV s s]
      steady_loadRegistered(2)[of "may_resume a s" UNIV s s]
    by (auto split: sum.splits prod.splits)
next
  case (Call c e)
  then show ?thesis by (auto simp: may_resume_def intro!: steady_run_cb)
next
  case (FuncResolved i f)
  then show ?thesis by (auto simp: may_resume_def intro!: steady_func_resolved)
qed (auto simp: thenable_settled_def
      intro!: steady_ready steady_ready_promise steady_close steady_start
        steady_exec_timer_expired steady_timer_expired steady_func_rejected)

lemma start_budget_perform: "start_budget (perform a s) \<le> start_budget s"
  using steady_perform[of a s] by (simp add: steady_def)

lemma start_budget_performs: "start_budget (performs as s) \<le> start_budget s"
proof (induction as arbitrary: s)
  case Nil
  then show ?case by simp
next
  case (Cons a as)
  from Cons.IH[of "perform a s"] start_budget_perform[of a s] show ?case by simp
qed

lemma start_budget_Avvio: "start_budget (Avvio tmo inst auto ovr pre) \<le> 1"
proof -
  let ?s0 = "\<lparr>a_timeout = tmo, a_instance = inst, current = [], doStart = None, a_error = None,
        lastUsed = None, a_started = False, booted = False,
        readyQ = createQueue ReadyDrain, closeQ = createQueue CloseDrain, tagged = [],
        root = Some 0, autostart = auto, override = ovr, preReady = pre,
        plugins = (\<lambda>i. Plugin NotAPlugin [] False 0 None)(0 := Plugin RootFn ''bound root'' False 0 None),
        next_pid = 1, promises = (\<lambda>i. Pending), next_prid = 0,
        timers = (\<lambda>i. (Unset, UserCont 0 0 RetNone, ReadyWorked)), next_timer = 0,
        ticks = [], micro = [], in_micro = False, calls = []\<rparr>"
  have "steady UNIV UNIV ?s0 (loadPlugin 0 ?s0)"
    by (rule steady_loadPlugin) auto
  then have "start_budget (loadPlugin 0 ?s0) \<le> start_budget ?s0"
    by (simp add: steady_def)
  moreover have "start_budget ?s0 = 1"
    by (simp add: start_budget_def createQueue_def)
  ultimately show ?thesis by (simp add: Avvio_def)
qed

lemma start_count_Avvio: "count_list (calls (performs as (Avvio tmo inst auto ovr pre))) (Emit ''start'') \<le> 1"
  using start_budget_performs[of as "Avvio tmo inst auto ovr pre"] start_budget_Avvio[of tmo inst auto ovr pre]
  by (simp add: start_budget_def split: if_splits)

section \<open>Ready continuations and the start event\<close>

text \<open>
  What holds of the ready queue. Whatever the host and the loop do after construction,
  in any order and any number of times, the start event is emitted at most once. A ready
  continuation registered while the ready queue is paused is appended to it and not
  called. The queue is resumed by the root unit's completion callback, which
  \<^verbatim>\<open>finish\<close> calls once the root unit is marked loaded, and which sets the booted
  flag first when there is no error. A completed continuation hands the queue to the
  next one, which leaves the queue as it is called; when the last one has completed the
  queue drains: its handler emits the start event and replaces itself by a no-op, after
  which a drain emits nothing.
\<close>

theorem ready_and_start_once:
  "count_list (calls (performs as (Avvio tmo inst auto ovr pre))) (Emit ''start'') \<le> 1
   \<and> (paused (readyQ s) \<longrightarrow>
        ready f s = queueMicrotask T_start (s\<lparr>readyQ := (readyQ s)\<lparr>items := items (readyQ s) @ [f]\<rparr>\<rparr>))
   \<and> (\<not> loaded (plugins s i) \<and> parentq (plugins s i) = None \<longrightarrow>
        finish_done i e s =
          root_callback e ((upd_plugin i (\<lambda>p. p\<lparr>loaded := True\<rparr>) s)\<lparr>current := drop 1 (current s)\<rparr>))
   \<and> (preReady s = None \<longrightarrow>
        root_callback None s = readyQ_resume ((record_call (Emit ''preReady'') s)\<lparr>root := None, booted := True\<rparr>))
   \<and> (items (readyQ s) = g # gs \<and> running (readyQ s) \<le> 1 \<and> \<not> paused (readyQ s) \<longrightarrow>
        readyQ_release s = callWithCallbackOrNextTick g ReadyWorked (s\<lparr>readyQ := (readyQ s)\<lparr>items := gs\<rparr>\<rparr>))
   \<and> (items (readyQ s) = [] \<and> running (readyQ s) = 1 \<longrightarrow>
        readyQ_release s = readyQ_signal (Some Drain) (s\<lparr>readyQ := (readyQ s)\<lparr>running := 0\<rparr>\<rparr>))
   \<and> (drain (readyQ s) = ReadyDrain \<longrightarrow>
        readyQ_signal (Some Drain) s = (record_call (Emit ''start'') s)\<lparr>readyQ := (readyQ s)\<lparr>drain := RNoop\<rparr>\<rparr>)
   \<and> (drain (readyQ s) = RNoop \<longrightarrow> readyQ_signal (Some Drain) s = s)"
proof -
  have 1: "count_list (calls (performs as (Avvio tmo inst auto ovr pre))) (Emit ''start'') \<le> 1"
    by (rule start_count_Avvio)
  have 2: "paused (readyQ s) \<longrightarrow>
        ready f s = queueMicrotask T_start (s\<lparr>readyQ := (readyQ s)\<lparr>items := items (readyQ s) @ [f]\<rparr>\<rparr>)"
    by (simp add: ready_def readyQ_push_def q_push_def readyQ_signal_def)
  have 3: "\<not> loaded (plugins s i) \<and> parentq (plugins s i) = None \<longrightarrow>
        finish_done i e s =
          root_callback e ((upd_plugin i (\<lambda>p. p\<lparr>loaded := True\<rparr>) s)\<lparr>current := drop 1 (current s)\<rparr>)"
    by (simp add: finish_done_def plugin_worked_def Let_def upd_plugin_def)
  have 4: "preReady s = None \<longrightarrow>
        root_callback None s = readyQ_resume ((record_call (Emit ''preReady'') s)\<lparr>root := None, booted := True\<rparr>)"
    by (simp add: root_callback_def Let_def)
  have 5: "items (readyQ s) = g # gs \<and> running (readyQ s) \<le> 1 \<and> \<not> paused (readyQ s) \<longrightarrow>
        readyQ_release s = callWithCallbackOrNextTick g ReadyWorked (s\<lparr>readyQ := (readyQ s)\<lparr>items := gs\<rparr>\<rparr>)"
    by (simp add: readyQ_release_def q_release_def readyQ_signal_def)
  have 6: "items (readyQ s) = [] \<and> running (readyQ s) = 1 \<longrightarrow>
        readyQ_release s = readyQ_signal (Some Drain) (s\<lparr>readyQ := (readyQ s)\<lparr>running := 0\<rparr>\<rparr>)"
    by (simp add: readyQ_release_def q_release_def)
  have 7: "drain (readyQ s) = ReadyDrain \<longrightarrow>
        readyQ_signal (Some Drain) s = (record_call (Emit ''start'') s)\<lparr>readyQ := (readyQ s)\<lparr>drain := RNoop\<rparr>\<rparr>"
    by (simp add: readyQ_signal_def)
  have 8: "drain (readyQ s) = RNoop \<longrightarrow> readyQ_signal (Some Drain) s = s"
    by (simp add: readyQ_signal_def)
  from 1 2 3 4 5 6 7 8 show ?thesis by blast
qed

theorem ready_and_start_once_witness:
  "calls (demo_three_at 20)
     = [Emit ''preReady'', ContCall (UserCont 1 0 RetNone) [] None,
        ContCall (UserCont 2 1 RetNone) [AErr None] None,
        ContCall (UserCont 3 0 RetNone) [] None, Emit ''start'']
   \<and> count_list (calls (performs [Start, Start, Ready (UserCont 1 0 RetNone), Start] demo_boot)) (Emit ''start'') \<le> 1
   \<and> paused (readyQ demo_boot)
   \<and> ready (UserCont 1 0 RetNone) demo_boot
       = queueMicrotask T_start (demo_boot\<lparr>readyQ := (readyQ demo_boot)\<lparr>items := items (readyQ demo_boot) @ [UserCont 1 0 RetNone]\<rparr>\<rparr>)
   \<and> \<not> loaded (plugins demo_boot 0) \<and> parentq (plugins demo_boot 0) = None
   \<and> finish_done 0 None demo_boot
       = root_callback None ((upd_plugin 0 (\<lambda>p. p\<lparr>loaded := True\<rparr>) demo_boot)\<lparr>current := drop 1 (current demo_boot)\<rparr>)
   \<and> preReady demo_boot = None
   \<and> root_callback None demo_boot
       = readyQ_resume ((record_call (Emit ''preReady'') demo_boot)\<lparr>root := None, booted := True\<rparr>)
   \<and> items (readyQ (demo_three_at 10)) = [UserCont 2 1 RetNone, UserCont 3 0 RetNone]
   \<and> running (readyQ (demo_three_at 10)) \<le> 1 \<and> \<not> paused (readyQ (demo_three_at 10))
   \<and> readyQ_release (demo_three_at 10)
       = callWithCallbackOrNextTick (UserCont 2 1 RetNone) ReadyWorked
           ((demo_three_at 10)\<lparr>readyQ := (readyQ (demo_three_at 10))\<lparr>items := [UserCont 3 0 RetNone]\<rparr>\<rparr>)
   \<and> items (readyQ (demo_three_at 12)) = [] \<and> running (readyQ (demo_three_at 12)) = 1
   \<and> readyQ_release (demo_three_at 12)
       = readyQ_signal (Some Drain) ((demo_three_at 12)\<lparr>readyQ := (readyQ (demo_three_at 12))\<lparr>running := 0\<rparr>\<rparr>)
   \<and> drain (readyQ demo_boot) = ReadyDrain
   \<and> readyQ_signal (Some Drain) demo_boot
       = (record_call (Emit ''start'') demo_boot)\<lparr>readyQ := (readyQ demo_boot)\<lparr>drain := RNoop\<rparr>\<rparr>
   \<and> drain (readyQ demo_booted) = RNoop
   \<and> readyQ_signal (Some Drain) demo_booted = demo_booted"
proof -
  have run: "calls (demo_three_at 20)
     = [Emit ''preReady'', ContCall (UserCont 1 0 RetNone) [] None,
        ContCall (UserCont 2 1 RetNone) [AErr None] None,
        ContCall (UserCont 3 0 RetNone) [] None, Emit ''start'']"
    by code_simp
  have b: "paused (readyQ demo_boot)" "\<not> loaded (plugins demo_boot 0)"
    "parentq (plugins demo_boot 0) = None" "preReady demo_boot = None"
    "drain (readyQ demo_boot) = ReadyDrain" "drain (readyQ demo_booted) = RNoop"
    by code_simp+
  have m: "items (readyQ (demo_three_at 10)) = [UserCont 2 1 RetNone, UserCont 3 0 RetNone]"
    "running (readyQ (demo_three_at 10)) \<le> 1" "\<not> paused (readyQ (demo_three_at 10))"
    "items (readyQ (demo_three_at 12)) = []" "running (readyQ (demo_three_at 12)) = 1"
    by code_simp+
  have 1: "count_list (calls (performs [Start, Start, Ready (UserCont 1 0 RetNone), Start] demo_boot)) (Emit ''start'') \<le> 1"
    using ready_and_start_once[of "[Start, Start, Ready (UserCont 1 0 RetNone), Start]" 0 7 True "\<lambda>srv i. Inr srv" None]
    by (simp add: demo_boot_def)
  note t = ready_and_start_once[where as = "[]" and tmo = 0 and inst = 0 and auto = True and pre = None
      and ovr = "\<lambda>srv i. Inr srv"]
  from t[where s = demo_boot and f = "UserCont 1 0 RetNone" and i = 0 and e = None] b
  have 2: "ready (UserCont 1 0 RetNone) demo_boot
       = queueMicrotask T_start (demo_boot\<lparr>readyQ := (readyQ demo_boot)\<lparr>items := items (readyQ demo_boot) @ [UserCont 1 0 RetNone]\<rparr>\<rparr>)"
    and 3: "finish_done 0 None demo_boot
       = root_callback None ((upd_plugin 0 (\<lambda>p. p\<lparr>loaded := True\<rparr>) demo_boot)\<lparr>current := drop 1 (current demo_boot)\<rparr>)"
    and 4: "root_callback None demo_boot
       = readyQ_resume ((record_call (Emit ''preReady'') demo_boot)\<lparr>root := None, booted := True\<rparr>)"
    and 7: "readyQ_signal (Some Drain) demo_boot
       = (record_call (Emit ''start'') demo_boot)\<lparr>readyQ := (readyQ demo_boot)\<lparr>drain := RNoop\<rparr>\<rparr>"
    by blast+
  from t[where s = "demo_three_at 10" and g = "UserCont 2 1 RetNone" and gs = "[UserCont 3 0 RetNone]"] m
  have 5: "readyQ_release (demo_three_at 10)
       = callWithCallbackOrNextTick (UserCont 2 1 RetNone) ReadyWorked
           ((demo_three_at 10)\<lparr>readyQ := (readyQ (demo_three_at 10))\<lparr>items := [UserCont 3 0 RetNone]\<rparr>\<rparr>)"
    by blast
  from t[where s = "demo_three_at 12"] m
  have 6: "readyQ_release (demo_three_at 12)
       = readyQ_signal (Some Drain) ((demo_three_at 12)\<lparr>readyQ := (readyQ (demo_three_at 12))\<lparr>running := 0\<rparr>\<rparr>)"
    by blast
  from t[where s = demo_booted] b
  have 8: "readyQ_signal (Some Drain) demo_booted = demo_booted" by blast
  from run b m 1 2 3 4 5 6 7 8 show ?thesis by blast
qed

text \<open>
  Claim C4, evaluated on the code. Once the orchestrator has booted and the ready queue
  is idle, \<^verbatim>\<open>ready()\<close> without a function pushes \<^verbatim>\<open>readyPromiseCB\<close> onto a queue that
  runs it at once, before the executor has initialised \<^verbatim>\<open>relativeContext\<close>
  (\<^verbatim>\<open>src/boot.js\<close>, lines 299 to 309): the read of the variable throws, the promise is
  rejected, and the queue's completion callback is never called. The queue stays busy,
  and a continuation registered afterwards waits in it for ever: when the loop is idle
  it has not been called. With a function in the first call as well, both continuations
  are called, once each.
\<close>

theorem ready_after_boot_stuck:
  "booted demo_booted \<and> ticks demo_booted = [] \<and> micro demo_booted = []
   \<and> \<not> paused (readyQ demo_booted) \<and> running (readyQ demo_booted) = 0
   \<and> promises demo_ready_after_boot 0 = Rejected ReferenceError
   \<and> calls demo_ready_after_boot = calls demo_booted @ [Thrown ReferenceError]
   \<and> items (readyQ demo_ready_after_boot) = [UserCont 1 0 RetNone]
   \<and> running (readyQ demo_ready_after_boot) = 1
   \<and> ticks demo_ready_after_boot = [] \<and> micro demo_ready_after_boot = []
   \<and> calls demo_ready_callbacks_after_boot
       = calls demo_booted @ [ContCall (UserCont 2 0 RetNone) [] None, ContCall (UserCont 1 0 RetNone) [] None]"
  by code_simp

section \<open>When the children of a unit start\<close>

text \<open>
  Claim C2, amended. The children queue of a unit is created paused, and a child
  enqueued on a paused queue is appended to it and not started. The queue is resumed by
  the unit's \<^verbatim>\<open>finish\<close> step when \<^verbatim>\<open>exec\<close> settles without error, but not only
  there: among all the entry points of the system, the ones that can turn the queue of
  an existing unit from paused to running are those listed by \<open>may_resume\<close>, which are
  a completion callback of that unit called without error, a partial-completion request
  (\<^verbatim>\<open>loadedSoFar\<close> resumes the queue of the innermost open unit, at once if the unit
  has started and at its start otherwise), and for the root unit the task
  \<^verbatim>\<open>_loadRegistered\<close> schedules. So without a partial-completion request no child of a
  unit other than the root begins before the unit's function has signalled completion,
  and with one a child may.
\<close>

theorem children_queue_resumed:
  "paused (q (Plugin f nm a t pq))
   \<and> (paused (q (plugins s i)) \<longrightarrow>
        pluginQ_push i c s = upd_plugin i (\<lambda>p. p\<lparr>q := (q p)\<lparr>items := items (q p) @ [c]\<rparr>\<rparr>) s)
   \<and> (k < next_pid s \<and> paused (q (plugins s k)) \<and> \<not> paused (q (plugins (perform act s) k)) \<longrightarrow>
        k \<in> may_resume act s)
   \<and> \<not> paused (q (plugins (finish i None s) i))"
proof -
  have 1: "paused (q (Plugin f nm a t pq))" by (simp add: Plugin_def q_pause_def)
  have 2: "paused (q (plugins s i)) \<longrightarrow>
        pluginQ_push i c s = upd_plugin i (\<lambda>p. p\<lparr>q := (q p)\<lparr>items := items (q p) @ [c]\<rparr>\<rparr>) s"
    by (simp add: pluginQ_push_def q_push_def pluginQ_signal_def upd_plugin_def)
  have 3: "k < next_pid s \<and> paused (q (plugins s k)) \<and> \<not> paused (q (plugins (perform act s) k)) \<longrightarrow>
        k \<in> may_resume act s"
    using steady_perform[of act s] unfolding steady_def by blast
  have "\<not> paused (q (plugins (pluginQ_resume i x) i))" for x
    by (auto simp: pluginQ_resume_def pluginQ_signal_def q_resume_def q_release_def
        split: prod.splits option.splits qsignal.splits pdrain.splits list.splits if_splits)
  then have 4: "\<not> paused (q (plugins (finish i None s) i))" by (simp add: finish_def)
  from 1 2 3 4 show ?thesis by blast
qed

theorem children_queue_resumed_witness:
  "paused (q (plugins demo_running 1))
   \<and> pluginQ_push 1 2 demo_running
       = upd_plugin 1 (\<lambda>p. p\<lparr>q := (q p)\<lparr>items := items (q p) @ [2]\<rparr>\<rparr>) demo_running
   \<and> 1 < next_pid demo_running
   \<and> \<not> paused (q (plugins (perform (Call (ExecDone 1) None) demo_running) 1))
   \<and> 1 \<in> may_resume (Call (ExecDone 1) None) demo_running"
proof -
  have h: "paused (q (plugins demo_running 1))" "1 < next_pid demo_running"
    "\<not> paused (q (plugins (perform (Call (ExecDone 1) None) demo_running) 1))"
    by code_simp+
  note t = children_queue_resumed[where f = RootFn and nm = "[]" and a = False and t = 0 and pq = None
      and s = demo_running and i = 1 and c = 2 and k = 1 and act = "Call (ExecDone 1) None"]
  from t h have "pluginQ_push 1 2 demo_running
       = upd_plugin 1 (\<lambda>p. p\<lparr>q := (q p)\<lparr>items := items (q p) @ [2]\<rparr>\<rparr>) demo_running"
    and "1 \<in> may_resume (Call (ExecDone 1) None) demo_running"
    by blast+
  with h show ?thesis by blast
qed

theorem children_queue_resumed_counterexample:
  "calls demo_early = [Body 1 (Some 7), Body 2 (Some 7)]
   \<and> parentq (plugins demo_early 2) = Some 1
   \<and> \<not> completed (plugins demo_early 1) \<and> \<not> loaded (plugins demo_early 1)"
  by code_simp

section \<open>Timeouts\<close>






section \<open>Error propagation\<close>

lemma pluginQ_signal_a_error [simp]: "a_error (pluginQ_signal j sig s) = a_error s"
  by (auto simp: pluginQ_signal_def split: option.splits qsignal.splits pdrain.splits)


lemma pluginQ_resume_a_error [simp]:
  "a_error (pluginQ_resume j s) = a_error s" "calls (pluginQ_resume j s) = calls s"
  unfolding pluginQ_resume_def by (auto simp: pluginQ_signal_def split: prod.splits option.splits qsignal.splits pdrain.splits)



section \<open>When a unit is marked loaded\<close>

text \<open>
  Claim C3. After the function of a unit has settled without error, \<^verbatim>\<open>finish\<close> defers
  a \<^verbatim>\<open>check\<close> and resumes the children queue. If a \<^verbatim>\<open>check\<close> marks the unit
  loaded, then at that moment the queue had length zero, nothing in flight, and no
  partial-completion promise was pending. While the queue is not empty or not idle,
  \<^verbatim>\<open>check\<close> only installs the drain handler; the drain signal, which the queue raises
  when its last child in flight completes, runs the handler, which resets itself and
  defers a new \<^verbatim>\<open>check\<close>. With the queue empty and idle and a partial-completion
  promise pending, \<^verbatim>\<open>check\<close> resolves the promise and defers, through \<^verbatim>\<open>wrap\<close>, a
  new \<^verbatim>\<open>check\<close>. Only with the queue empty and idle and no promise pending does it
  mark the unit loaded (\<^verbatim>\<open>done\<close> inside \<^verbatim>\<open>finish\<close>). So a child that is in the
  queue, or in flight, when a check runs is executed before the parent is marked loaded.
\<close>

theorem loaded_after_drain:
  "(\<not> loaded (plugins s i) \<and> loaded (plugins (check i s) i) \<longrightarrow>
      q_length (q (plugins s i)) = 0 \<and> running (q (plugins s i)) = 0 \<and> p_promise (plugins s i) = None)
   \<and> (\<not> (q_length (q (plugins s i)) = 0 \<and> running (q (plugins s i)) = 0) \<longrightarrow>
      check i s = upd_plugin i (\<lambda>p. p\<lparr>q := (q p)\<lparr>drain := FinishDrain\<rparr>\<rparr>) s)
   \<and> (drain (q (plugins s i)) = FinishDrain \<longrightarrow>
      pluginQ_signal i (Some Drain) s
        = queueMicrotask (T_check i) (upd_plugin i (\<lambda>p. p\<lparr>q := (q p)\<lparr>drain := PNoop\<rparr>\<rparr>) s))
   \<and> (items (q (plugins s i)) = [] \<and> running (q (plugins s i)) = 1 \<longrightarrow>
      pluginQ_release i s
        = pluginQ_signal i (Some Drain) (upd_plugin i (\<lambda>p. p\<lparr>q := (q p)\<lparr>running := 0\<rparr>\<rparr>) s))
   \<and> (q_length (q (plugins s i)) = 0 \<and> running (q (plugins s i)) = 0 \<and> p_promise (plugins s i) = Some pr \<longrightarrow>
      check i s
        = upd_plugin i (\<lambda>p. p\<lparr>p_promise := None\<rparr>) (queueMicrotask (T_wrap i) (settle pr None s)))
   \<and> (q_length (q (plugins s i)) = 0 \<and> running (q (plugins s i)) = 0 \<and> p_promise (plugins s i) = None \<longrightarrow>
      check i s = finish_done i None s)
   \<and> run_task (T_wrap i) s = queueMicrotask (T_check i) s
   \<and> finish i None s = pluginQ_resume i (queueMicrotask (T_check i) s)"
proof -
  have 1: "q_length (q (plugins s i)) = 0 \<and> running (q (plugins s i)) = 0 \<and> p_promise (plugins s i) = None"
    if "\<not> loaded (plugins s i)" "loaded (plugins (check i s) i)"
    using that by (auto simp: check_def Let_def split: if_splits option.splits)
  have 2: "check i s = upd_plugin i (\<lambda>p. p\<lparr>q := (q p)\<lparr>drain := FinishDrain\<rparr>\<rparr>) s"
    if "\<not> (q_length (q (plugins s i)) = 0 \<and> running (q (plugins s i)) = 0)"
    using that by (auto simp: check_def Let_def)
  have 3: "pluginQ_signal i (Some Drain) s
        = queueMicrotask (T_check i) (upd_plugin i (\<lambda>p. p\<lparr>q := (q p)\<lparr>drain := PNoop\<rparr>\<rparr>) s)"
    if "drain (q (plugins s i)) = FinishDrain"
    using that by (simp add: pluginQ_signal_def)
  have 4: "pluginQ_release i s
        = pluginQ_signal i (Some Drain) (upd_plugin i (\<lambda>p. p\<lparr>q := (q p)\<lparr>running := 0\<rparr>\<rparr>) s)"
    if "items (q (plugins s i)) = []" "running (q (plugins s i)) = 1"
    using that by (simp add: pluginQ_release_def q_release_def upd_plugin_def)
  have 5: "check i s
        = upd_plugin i (\<lambda>p. p\<lparr>p_promise := None\<rparr>) (queueMicrotask (T_wrap i) (settle pr None s))"
    if "q_length (q (plugins s i)) = 0" "running (q (plugins s i)) = 0" "p_promise (plugins s i) = Some pr"
    using that by (simp add: check_def Let_def)
  have 6: "check i s = finish_done i None s"
    if "q_length (q (plugins s i)) = 0" "running (q (plugins s i)) = 0" "p_promise (plugins s i) = None"
    using that by (simp add: check_def Let_def)
  have 7: "run_task (T_wrap i) s = queueMicrotask (T_check i) s" by simp
  have 8: "finish i None s = pluginQ_resume i (queueMicrotask (T_check i) s)"
    by (simp add: finish_def)
  from 1 2 3 4 5 6 7 8 show ?thesis by blast
qed

theorem loaded_after_drain_witness:
  "\<not> loaded (plugins (demo_late_at 1) 2) \<and> loaded (plugins (check 2 (demo_late_at 1)) 2)
   \<and> q_length (q (plugins (demo_late_at 1) 2)) = 0 \<and> running (q (plugins (demo_late_at 1) 2)) = 0
   \<and> p_promise (plugins (demo_late_at 1) 2) = None
   \<and> \<not> (q_length (q (plugins demo_late_pre 1)) = 0 \<and> running (q (plugins demo_late_pre 1)) = 0)
   \<and> check 1 demo_late_pre = upd_plugin 1 (\<lambda>p. p\<lparr>q := (q p)\<lparr>drain := FinishDrain\<rparr>\<rparr>) demo_late_pre
   \<and> drain (q (plugins (demo_late_at 1) 1)) = FinishDrain
   \<and> pluginQ_signal 1 (Some Drain) (demo_late_at 1)
       = queueMicrotask (T_check 1) (upd_plugin 1 (\<lambda>p. p\<lparr>q := (q p)\<lparr>drain := PNoop\<rparr>\<rparr>) (demo_late_at 1))
   \<and> items (q (plugins (demo_late_at 1) 1)) = [] \<and> running (q (plugins (demo_late_at 1) 1)) = 1
   \<and> pluginQ_release 1 (demo_late_at 1)
       = pluginQ_signal 1 (Some Drain) (upd_plugin 1 (\<lambda>p. p\<lparr>q := (q p)\<lparr>running := 0\<rparr>\<rparr>) (demo_late_at 1))
   \<and> q_length (q (plugins demo_skipped_partial 2)) = 0 \<and> running (q (plugins demo_skipped_partial 2)) = 0
   \<and> p_promise (plugins demo_skipped_partial 2) = Some 0
   \<and> check 2 demo_skipped_partial
       = upd_plugin 2 (\<lambda>p. p\<lparr>p_promise := None\<rparr>) (queueMicrotask (T_wrap 2) (settle 0 None demo_skipped_partial))
   \<and> check 2 (demo_late_at 1) = finish_done 2 None (demo_late_at 1)
   \<and> \<not> loaded (plugins (demo_late_at 2) 1) \<and> loaded (plugins (demo_late_at 3) 1)"
proof -
  have a: "\<not> loaded (plugins (demo_late_at 1) 2)" "loaded (plugins (check 2 (demo_late_at 1)) 2)"
    "drain (q (plugins (demo_late_at 1) 1)) = FinishDrain"
    "items (q (plugins (demo_late_at 1) 1)) = []" "running (q (plugins (demo_late_at 1) 1)) = 1"
    "\<not> loaded (plugins (demo_late_at 2) 1)" "loaded (plugins (demo_late_at 3) 1)"
    by code_simp+
  have b: "\<not> (q_length (q (plugins demo_late_pre 1)) = 0 \<and> running (q (plugins demo_late_pre 1)) = 0)"
    by code_simp
  have c: "q_length (q (plugins demo_skipped_partial 2)) = 0" "running (q (plugins demo_skipped_partial 2)) = 0"
    "p_promise (plugins demo_skipped_partial 2) = Some 0"
    by code_simp+
  from loaded_after_drain[where s = "demo_late_at 1" and i = 2] a(1,2)
  have 1: "q_length (q (plugins (demo_late_at 1) 2)) = 0" "running (q (plugins (demo_late_at 1) 2)) = 0"
    "p_promise (plugins (demo_late_at 1) 2) = None"
    by blast+
  from loaded_after_drain[where s = "demo_late_at 1" and i = 2] 1
  have 6: "check 2 (demo_late_at 1) = finish_done 2 None (demo_late_at 1)" by blast
  from loaded_after_drain[where s = demo_late_pre and i = 1] b
  have 2: "check 1 demo_late_pre = upd_plugin 1 (\<lambda>p. p\<lparr>q := (q p)\<lparr>drain := FinishDrain\<rparr>\<rparr>) demo_late_pre"
    by blast
  from loaded_after_drain[where s = "demo_late_at 1" and i = 1] a(3,4,5)
  have 3: "pluginQ_signal 1 (Some Drain) (demo_late_at 1)
       = queueMicrotask (T_check 1) (upd_plugin 1 (\<lambda>p. p\<lparr>q := (q p)\<lparr>drain := PNoop\<rparr>\<rparr>) (demo_late_at 1))"
    and 4: "pluginQ_release 1 (demo_late_at 1)
       = pluginQ_signal 1 (Some Drain) (upd_plugin 1 (\<lambda>p. p\<lparr>q := (q p)\<lparr>running := 0\<rparr>\<rparr>) (demo_late_at 1))"
    by blast+
  from loaded_after_drain[where s = demo_skipped_partial and i = 2 and pr = 0] c
  have 5: "check 2 demo_skipped_partial
       = upd_plugin 2 (\<lambda>p. p\<lparr>p_promise := None\<rparr>) (queueMicrotask (T_wrap 2) (settle 0 None demo_skipped_partial))"
    by blast
  from a b c 1 2 3 4 5 6 show ?thesis by blast
qed

section \<open>Closing twice\<close>

text \<open>
  Claim C5, evaluated on the code. The drain handler of the close queue emits the close
  event and then resets the drain handler of the ready queue, not its own
  (\<^verbatim>\<open>src/boot.js\<close>, line 160, under the comment that the close event should be emitted
  once only). So it stays installed: in the run below each handler is called once and
  in order (the \<^verbatim>\<open>onClose\<close> handler with the context, the \<^verbatim>\<open>close\<close> functions with
  the error), but the second \<^verbatim>\<open>close\<close> drains the close queue again and the close event
  is emitted a second time.
\<close>

theorem close_emitted_twice:
  "calls demo_close_once
     = [Emit ''preReady'', CloseCall (UserClose 1 1 RetNone) [ACtx 7] None, Emit ''start'',
        CloseCall (UserClose 3 1 RetNone) [AErr None] None, Emit ''close'']
   \<and> drain (closeQ demo_close_once) = CloseDrain
   \<and> calls demo_close_twice
     = calls demo_close_once @ [CloseCall (UserClose 2 1 RetNone) [AErr None] None, Emit ''close'']
   \<and> count_list (calls demo_close_twice) (Emit ''close'') = 2"
  by code_simp

end
